theory Spec2Isabelle
  imports Complex_Main "HOL-Library.Word" "HOL-Library.Signed_Division"
begin

section \<open>Movie decoding (movie\_decode.c): a shallow embedding\<close>

text \<open>
  The C integers of the source (\<open>INT32\<close>, \<open>INT64\<close>, \<open>int\<close>, \<open>size_t\<close>) are modelled
  as \<^typ>\<open>int\<close>.  C's \<open>/\<close> and \<open>%\<close> truncate towards zero: they are written
  \<open>sdiv\<close> and \<open>smod\<close>.  Bytes are \<^typ>\<open>8 word\<close>.
\<close>

subsection \<open>Constants\<close>

definition STREAM_BUFFER_TIME :: int where "STREAM_BUFFER_TIME = 4000"
definition NUM_PACKETS :: int where "NUM_PACKETS = 32"
definition SAMPLE_RATE :: int where "SAMPLE_RATE = 44100"
definition POST_MAX_HEIGHT :: int where "POST_MAX_HEIGHT = 254"
definition POST_BASE_BYTES :: int where "POST_BASE_BYTES = 4"
definition INT64_MIN :: int where "INT64_MIN = - (2 ^ 63)"

subsection \<open>Time conversion\<close>

record AVRational =
  num :: int
  den :: int

text \<open>
  Modelled from the spec: \<open>av_rescale_q\<close> is the codec library's 64-bit rational rescaler;
  its code is not among the sources.  The spec asks for round-to-nearest with ties away
  from zero: \<open>av_rescale_q a bq cq\<close> is \<open>a * bq / cq\<close> rounded that way, computed as
  \<open>(a * b + c / 2) / c\<close> on the magnitude of \<open>a\<close>, with \<open>b = bq.num * cq.den\<close> and
  \<open>c = cq.num * bq.den\<close>.  The library answers \<open>INT64_MIN\<close> when \<open>c \<le> 0\<close> or \<open>b < 0\<close>.
\<close>

definition av_rescale_rnd_near_inf :: "int \<Rightarrow> int \<Rightarrow> int \<Rightarrow> int" where
  "av_rescale_rnd_near_inf a b c =
     (if c \<le> 0 \<or> b < 0 then INT64_MIN
      else if a < 0 then - ((- a * b + c sdiv 2) sdiv c)
      else (a * b + c sdiv 2) sdiv c)"

definition av_rescale_q :: "int \<Rightarrow> AVRational \<Rightarrow> AVRational \<Rightarrow> int" where
  "av_rescale_q a bq cq = av_rescale_rnd_near_inf a (num bq * den cq) (num cq * den bq)"

definition SamplesToMS :: "int \<Rightarrow> int" where
  "SamplesToMS numsamples =
     (let oldtb = \<lparr>num = 1, den = SAMPLE_RATE\<rparr>;
          newtb = \<lparr>num = 1, den = 1000\<rparr>
      in av_rescale_q numsamples oldtb newtb)"

definition MSToSamples :: "int \<Rightarrow> int" where
  "MSToSamples ms =
     (let oldtb = \<lparr>num = 1, den = 1000\<rparr>;
          newtb = \<lparr>num = 1, den = SAMPLE_RATE\<rparr>
      in av_rescale_q ms oldtb newtb)"

subsection \<open>Fatal outcomes\<close>

text \<open>
  \<open>I_Error\<close> aborts the program with a message.  Two outcomes the C code has without
  calling \<open>I_Error\<close> are kept apart from it: an integer division by zero (\<open>SIGFPE\<close>) and
  an access through a null pointer or outside an allocation (\<open>SIGSEGV\<close>).  A function that
  can end in one of them returns \<open>fatal + 'a\<close>, with \<open>Inl\<close> for the fatal outcome.
\<close>

datatype fatal = I_Error string | SIGFPE | SIGSEGV

definition seq :: "fatal + 'a \<Rightarrow> ('a \<Rightarrow> fatal + 'b) \<Rightarrow> fatal + 'b" where
  "seq m f = (case m of Inl e \<Rightarrow> Inl e | Inr x \<Rightarrow> f x)"

subsection \<open>Circular buffer\<close>

text \<open>
  \<open>moviebuffer_t\<close>: \<open>capacity\<close> slots of \<open>slotsize\<close> bytes each behind the pointer
  \<open>data\<close> (\<open>None\<close> is the null pointer), of which \<open>size\<close> are in use from slot
  \<open>start\<close> on.  The field \<open>size\<close> is written \<open>size_b\<close>.  A slot holds a value of
  type \<open>'a\<close> (a frame structure or a packet pointer); a pointer to a slot is its number in
  \<open>data\<close>, and \<open>None\<close> is \<open>NULL\<close>.  \<open>calloc\<close> gives zeroed slots: \<open>z\<close> is the
  all-zero slot value.  A negative count converts to a huge \<open>size_t\<close>, for which the
  allocation fails; running out of memory is not modelled otherwise.
\<close>

record 'a moviebuffer =
  capacity :: int
  slotsize :: int
  start :: int
  size_b :: int
  data :: "'a list option"

definition calloc :: "int \<Rightarrow> 'a \<Rightarrow> 'a list option" where
  "calloc n z = (if n < 0 then None else Some (replicate (nat n) z))"

definition load_slot :: "'a moviebuffer \<Rightarrow> int option \<Rightarrow> fatal + 'a" where
  "load_slot buffer p =
     (case (p, data buffer) of
        (Some k, Some d) \<Rightarrow> if 0 \<le> k \<and> k < int (length d) then Inr (d ! nat k) else Inl SIGSEGV
      | _ \<Rightarrow> Inl SIGSEGV)"

definition store_slot :: "'a moviebuffer \<Rightarrow> int option \<Rightarrow> 'a \<Rightarrow> fatal + 'a moviebuffer" where
  "store_slot buffer p v =
     (case (p, data buffer) of
        (Some k, Some d) \<Rightarrow>
          if 0 \<le> k \<and> k < int (length d) then Inr (buffer\<lparr>data := Some (d[nat k := v])\<rparr>)
          else Inl SIGSEGV
      | _ \<Rightarrow> Inl SIGSEGV)"

definition InitialiseBuffer :: "int \<Rightarrow> int \<Rightarrow> 'a \<Rightarrow> fatal + 'a moviebuffer" where
  "InitialiseBuffer cap ssize z =
     (case calloc cap z of
        None \<Rightarrow> Inl (I_Error ''FFmpeg: cannot allocate buffer'')
      | Some d \<Rightarrow> Inr \<lparr>capacity = cap, slotsize = ssize, start = 0, size_b = 0, data = Some d\<rparr>)"

text \<open>
  \<open>CloneBuffer\<close> copies the structure, allocates \<open>capacity\<close> slots and copies that many
  slots from the source's storage.
\<close>

definition CloneBuffer :: "'a moviebuffer \<Rightarrow> 'a \<Rightarrow> fatal + 'a moviebuffer" where
  "CloneBuffer src z =
     (case calloc (capacity src) z of
        None \<Rightarrow> Inl (I_Error ''FFmpeg: cannot allocate buffer'')
      | Some d \<Rightarrow>
          (case data src of
             None \<Rightarrow> if capacity src = 0 then Inr (src\<lparr>data := Some d\<rparr>) else Inl SIGSEGV
           | Some sd \<Rightarrow>
               if capacity src \<le> int (length sd)
               then Inr (src\<lparr>data := Some (take (nat (capacity src)) sd)\<rparr>)
               else Inl SIGSEGV))"

definition GetBufferSlot :: "'a moviebuffer \<Rightarrow> int \<Rightarrow> fatal + int option" where
  "GetBufferSlot buffer index =
     (if index < 0 then Inr None
      else if capacity buffer = 0 then Inl SIGFPE
      else Inr (Some ((start buffer + index) smod capacity buffer)))"

definition PeekBuffer :: "'a moviebuffer \<Rightarrow> fatal + int option" where
  "PeekBuffer buffer = GetBufferSlot buffer 0"

definition EnqueueBuffer :: "'a moviebuffer \<Rightarrow> fatal + 'a moviebuffer \<times> int option" where
  "EnqueueBuffer buffer =
     (let buffer' = buffer\<lparr>size_b := size_b buffer + 1\<rparr>
      in seq (GetBufferSlot buffer' (size_b buffer' - 1)) (\<lambda>slot. Inr (buffer', slot)))"

definition DequeueBuffer :: "'a moviebuffer \<Rightarrow> fatal + 'a moviebuffer \<times> int option" where
  "DequeueBuffer buffer =
     seq (PeekBuffer buffer) (\<lambda>slot.
       if capacity buffer = 0 then Inl SIGFPE
       else Inr (buffer\<lparr>start := (start buffer + 1) smod capacity buffer,
                         size_b := size_b buffer - 1\<rparr>, slot))"

text \<open>
  \<open>DequeueBufferIntoBuffer dst src\<close> returns the two buffers and the pointer to the slot
  of \<open>dst\<close> that was written.  This is the function on two buffers of one slot size, as
  every caller passes them (the frame queue and the frame pool are clones of the consumer
  buffer, the packet queue is a clone of the packet pool): there the \<open>memcpy\<close> of
  \<open>src->slotsize\<close> bytes is the copy of one slot value.  The source compares no slot sizes;
  the copy between buffers of any two slot sizes is \<open>DequeueBufferIntoBuffer_bytes\<close> below,
  over the bytes of the two allocations.
\<close>

definition DequeueBufferIntoBuffer ::
  "'a moviebuffer \<Rightarrow> 'a moviebuffer \<Rightarrow> fatal + 'a moviebuffer \<times> 'a moviebuffer \<times> int option" where
  "DequeueBufferIntoBuffer dst src =
     seq (DequeueBuffer src) (\<lambda>(src', srcslot).
     seq (EnqueueBuffer dst) (\<lambda>(dst', dstslot).
     seq (load_slot src' srcslot) (\<lambda>v.
     seq (store_slot dst' dstslot v) (\<lambda>dst''.
       Inr (dst'', src', dstslot)))))"

function DequeueWholeBufferIntoBuffer ::
  "'a moviebuffer \<Rightarrow> 'a moviebuffer \<Rightarrow> fatal + 'a moviebuffer \<times> 'a moviebuffer" where
  "DequeueWholeBufferIntoBuffer dst src =
     (if size_b src > 0
      then (case DequeueBufferIntoBuffer dst src of
              Inl e \<Rightarrow> Inl e
            | Inr (dst', src', slot) \<Rightarrow> DequeueWholeBufferIntoBuffer dst' src')
      else Inr (dst, src))"
  by pat_completeness auto

lemma DequeueBuffer_size:
  "DequeueBuffer src = Inr (src', slot) \<Longrightarrow> size_b src' = size_b src - 1"
  by (auto simp: DequeueBuffer_def seq_def split: sum.splits if_splits)

lemma DequeueBufferIntoBuffer_src_size:
  "DequeueBufferIntoBuffer dst src = Inr (dst', src', slot) \<Longrightarrow> size_b src' = size_b src - 1"
  by (auto simp: DequeueBufferIntoBuffer_def seq_def dest: DequeueBuffer_size
      split: sum.splits prod.splits)

termination DequeueWholeBufferIntoBuffer
  by (relation "measure (\<lambda>(dst, src). nat (size_b src))")
     (auto dest: DequeueBufferIntoBuffer_src_size)

declare DequeueWholeBufferIntoBuffer.simps [simp del]


text \<open>
  A buffer is well formed when its storage has \<open>capacity\<close> slots, \<open>start\<close> is a slot
  number and \<open>size\<close> lies between 0 and \<open>capacity\<close>.  Its content is the list of the
  \<open>size\<close> slot values from \<open>start\<close> on, around the end of the storage.
\<close>

definition wf_buffer :: "'a moviebuffer \<Rightarrow> bool" where
  "wf_buffer b =
     (0 < capacity b \<and> 0 \<le> start b \<and> start b < capacity b
      \<and> 0 \<le> size_b b \<and> size_b b \<le> capacity b
      \<and> (case data b of None \<Rightarrow> False | Some d \<Rightarrow> int (length d) = capacity b))"

definition content :: "'a moviebuffer \<Rightarrow> 'a list" where
  "content b =
     (case data b of
        None \<Rightarrow> []
      | Some d \<Rightarrow> map (\<lambda>i. d ! nat ((start b + int i) mod capacity b)) [0..<nat (size_b b)])"

subsection \<open>Frames, streams, the decoding worker and the movie\<close>

text \<open>
  The structures of \<open>movie_decode.h\<close>, with the fields the functions below use.  Two
  structures of the source may name a field alike; the model then suffixes one of them:
  \<open>id_v\<close>, \<open>pts_v\<close> and \<open>duration_v\<close> are \<open>id\<close>, \<open>pts\<close> and \<open>duration\<close> of a video
  frame, \<open>pts_a\<close> is \<open>pts\<close> of an audio frame, and the worker's fields \<open>index\<close>,
  \<open>videostream\<close>, \<open>audiostream\<close> and \<open>usepatches\<close> carry the suffix \<open>_w\<close>.
  Pointers to pixel storage, to sample storage and to packets are addresses
  (\<^typ>\<open>nat\<close>); a structure pointer that may be null is an \<open>option\<close>.
\<close>

record frameimage =
  patch :: nat
  rgba_data0 :: nat

record movievideoframe =
  id_v :: int
  pts_v :: int
  duration_v :: int
  image :: frameimage

record movieaudioframe =
  pts_a :: int
  numsamples :: int
  firstsampleposition :: int
  samples0 :: nat

definition zero_videoframe :: movievideoframe where
  "zero_videoframe =
     \<lparr>id_v = 0, pts_v = 0, duration_v = 0, image = \<lparr>patch = 0, rgba_data0 = 0\<rparr>\<rparr>"

definition zero_audioframe :: movieaudioframe where
  "zero_audioframe = \<lparr>pts_a = 0, numsamples = 0, firstsampleposition = 0, samples0 = 0\<rparr>"

record AVStream =
  time_base :: AVRational
  avg_frame_rate :: AVRational

record AVCodecContext =
  width :: int
  height :: int
  sample_rate :: int
  channels :: int

record AVFrame =
  frame_width :: int
  frame_height :: int
  frame_pts :: int
  pkt_duration :: int
  nb_samples :: int
  frame_channels :: int

record AVPacket =
  stream_index :: int
  has_data :: bool

record 'f moviestream =
  index :: int
  stream :: "AVStream option"
  buffer :: "'f moviebuffer"
  numplanes :: int

record 'f moviedecodeworkerstream =
  index_w :: int
  codeccontext :: "AVCodecContext option"
  framequeue :: "'f moviebuffer"
  framepool :: "'f moviebuffer"

text \<open>
  \<open>packet_store\<close> is the memory of the packets allocated by \<open>av_packet_alloc\<close>: the
  packet at address \<open>p\<close> is \<open>packet_store ! p\<close>.  The slots of \<open>packetqueue\<close> and
  \<open>packetpool\<close> hold such addresses.  \<open>colorlut\<close> is \<open>colorlut.table\<close>, the table of
  16-bit entries built by \<open>InitColorLUT\<close>; \<open>tmpimage_data0\<close> is \<open>tmpimage.data[0]\<close>.
\<close>

record moviedecodeworker =
  videostream_w :: "movievideoframe moviedecodeworkerstream"
  audiostream_w :: "movieaudioframe moviedecodeworkerstream"
  packetqueue :: "nat moviebuffer"
  packetpool :: "nat moviebuffer"
  packet_store :: "AVPacket list"
  frame :: AVFrame
  tmpimage_data0 :: nat
  colorlut :: "nat \<Rightarrow> 16 word"
  usepatches_w :: bool
  nextframeid :: int
  flushing :: bool
  stopping :: bool

record movie =
  lumpdata :: "8 word list"
  lumpsize :: int
  lumpposition :: int
  videostream :: "movievideoframe moviestream"
  audiostream :: "movieaudioframe moviestream"
  decodeworker :: moviedecodeworker
  position :: int
  audioposition :: int
  lastvideoframeusedid :: int
  usepatches :: bool
  seeking :: bool

text \<open>
  The all-zero values of these structures, as \<open>calloc\<close> gives them.
\<close>

definition zero_buffer :: "'a moviebuffer" where
  "zero_buffer = \<lparr>capacity = 0, slotsize = 0, start = 0, size_b = 0, data = None\<rparr>"

definition zero_stream :: "'a moviestream" where
  "zero_stream = \<lparr>index = 0, stream = None, buffer = zero_buffer, numplanes = 0\<rparr>"

definition zero_workerstream :: "'a moviedecodeworkerstream" where
  "zero_workerstream =
     \<lparr>index_w = 0, codeccontext = None, framequeue = zero_buffer, framepool = zero_buffer\<rparr>"

definition zero_frame :: AVFrame where
  "zero_frame = \<lparr>frame_width = 0, frame_height = 0, frame_pts = 0, pkt_duration = 0,
                   nb_samples = 0, frame_channels = 0\<rparr>"

definition zero_worker :: moviedecodeworker where
  "zero_worker =
     \<lparr>videostream_w = zero_workerstream, audiostream_w = zero_workerstream,
      packetqueue = zero_buffer, packetpool = zero_buffer, packet_store = [],
      frame = zero_frame, tmpimage_data0 = 0, colorlut = (\<lambda>i. 0), usepatches_w = False,
      nextframeid = 0,
      flushing = False, stopping = False\<rparr>"

definition zero_movie :: movie where
  "zero_movie =
     \<lparr>lumpdata = [], lumpsize = 0, lumpposition = 0,
      videostream = zero_stream, audiostream = zero_stream, decodeworker = zero_worker,
      position = 0, audioposition = 0, lastvideoframeusedid = 0, usepatches = False,
      seeking = False\<rparr>"

subsection \<open>Byte source over the cached lump\<close>

definition SEEK_SET :: int where "SEEK_SET = 0"
definition SEEK_CUR :: int where "SEEK_CUR = 1"
definition SEEK_END :: int where "SEEK_END = 2"
definition AVSEEK_SIZE :: int where "AVSEEK_SIZE = 65536"

text \<open>
  \<open>ReadStream\<close>: \<open>bs\<close> is \<open>buffersize\<close> as a \<open>size_t\<close>, and the comparison inside
  \<open>min\<close> is one of \<open>size_t\<close> values, so \<open>lumpsize - lumpposition\<close> is taken modulo
  \<open>2 ^ 64\<close>; the minimum goes back into the \<open>int\<close> \<open>buffersize\<close> (32 bits, two's
  complement).  \<open>memcpy\<close> reads \<open>buffersize\<close> bytes of the lump from the cursor on and
  writes them to the front of \<open>buffer\<close>; an access outside the lump or outside
  \<open>buffer\<close> is \<open>SIGSEGV\<close>.  The result is the movie, the buffer and the returned count.
\<close>

definition to_size_t :: "int \<Rightarrow> int" where
  "to_size_t n = n mod 2 ^ 64"

definition to_int32 :: "int \<Rightarrow> int" where
  "to_int32 n = (n + 2 ^ 31) mod 2 ^ 32 - 2 ^ 31"


definition ReadStream ::
  "movie \<Rightarrow> 8 word list \<Rightarrow> int \<Rightarrow> fatal + movie \<times> 8 word list \<times> int" where
  "ReadStream movie buf buffersize =
     (let bs = to_size_t buffersize;
          buffersize' = to_int32 (min bs (to_size_t (lumpsize movie - lumpposition movie)));
          n = to_size_t buffersize'
      in if 0 \<le> lumpposition movie
            \<and> lumpposition movie + n \<le> int (length (lumpdata movie))
            \<and> n \<le> int (length buf)
         then Inr (movie\<lparr>lumpposition := lumpposition movie + buffersize'\<rparr>,
                   take (nat n) (drop (nat (lumpposition movie)) (lumpdata movie))
                     @ drop (nat n) buf,
                   buffersize')
         else Inl SIGSEGV)"

definition SeekStream :: "movie \<Rightarrow> int \<Rightarrow> int \<Rightarrow> movie \<times> int" where
  "SeekStream movie offset whence =
     (if whence = SEEK_CUR then (movie\<lparr>lumpposition := offset + lumpposition movie\<rparr>, 0)
      else if whence = SEEK_END then (movie\<lparr>lumpposition := offset + lumpsize movie\<rparr>, 0)
      else if whence = AVSEEK_SIZE then (movie, lumpsize movie)
      else (movie\<lparr>lumpposition := offset\<rparr>, 0))"

subsection \<open>Time conversion against the stream time bases\<close>

text \<open>
  The time base of a stream is read through the pointer \<open>stream\<close>; a null pointer is
  \<open>SIGSEGV\<close>.
\<close>

definition stream_time_base :: "'f moviestream \<Rightarrow> fatal + AVRational" where
  "stream_time_base st = (case stream st of None \<Rightarrow> Inl SIGSEGV | Some s \<Rightarrow> Inr (time_base s))"




definition MSToVideoPTS :: "movie \<Rightarrow> int \<Rightarrow> fatal + int" where
  "MSToVideoPTS movie ms =
     seq (stream_time_base (videostream movie)) (\<lambda>newtb.
       Inr (av_rescale_q ms \<lparr>num = 1, den = 1000\<rparr> newtb))"


subsection \<open>Getters\<close>




text \<open>
  \<open>FindVideoBufferIndexForPosition\<close> scans the buffer from the last slot in use down to
  slot 0; \<open>find_video_from\<close> is its loop from index \<open>i\<close> on.
  \<open>FindAudioBufferIndexForPosition\<close> scans upwards; \<open>find_audio_from\<close> is its loop.
\<close>

function find_video_from :: "movievideoframe moviebuffer \<Rightarrow> int \<Rightarrow> int \<Rightarrow> fatal + int" where
  "find_video_from buf pts i =
     (if i \<ge> 0
      then (case GetBufferSlot buf i of
              Inl e \<Rightarrow> Inl e
            | Inr slot \<Rightarrow>
                (case load_slot buf slot of
                   Inl e \<Rightarrow> Inl e
                 | Inr fr \<Rightarrow> if pts_v fr \<le> pts then Inr i else find_video_from buf pts (i - 1)))
      else Inr (- 1))"
  by pat_completeness auto
termination
  by (relation "measure (\<lambda>(buf, pts, i). nat (i + 1))") auto

declare find_video_from.simps [simp del]

definition FindVideoBufferIndexForPosition :: "movie \<Rightarrow> int \<Rightarrow> fatal + int" where
  "FindVideoBufferIndexForPosition movie pts =
     find_video_from (buffer (videostream movie)) pts (size_b (buffer (videostream movie)) - 1)"





subsection \<open>Moving frames between the buffers\<close>















definition PollVideoFrameQueue :: "movie \<Rightarrow> fatal + movie" where
  "PollVideoFrameQueue movie =
     (let worker = decodeworker movie
      in if size_b (framequeue (videostream_w worker)) \<noteq> 0
         then seq (DequeueWholeBufferIntoBuffer (buffer (videostream movie))
                     (framequeue (videostream_w worker))) (\<lambda>(buf, q).
                Inr (movie\<lparr>videostream := (videostream movie)\<lparr>buffer := buf\<rparr>,
                            decodeworker := worker\<lparr>videostream_w :=
                              (videostream_w worker)\<lparr>framequeue := q\<rparr>\<rparr>\<rparr>))
         else Inr movie)"




subsection \<open>Initialisation of the buffers\<close>

text \<open>
  \<open>AV_SAMPLE_FMT_S16\<close> is the codec library's packed signed 16-bit format:
  \<open>av_sample_fmt_is_planar\<close> answers 0 for it and \<open>av_get_bytes_per_sample\<close> answers 2.
\<close>

definition S16_is_planar :: bool where "S16_is_planar = False"

definition GetSamplesPerFrame :: "int \<Rightarrow> int \<Rightarrow> int" where
  "GetSamplesPerFrame nsamples inputsamplerate = nsamples * SAMPLE_RATE sdiv inputsamplerate + 1"

text \<open>
  \<open>InitialiseVideoBuffer\<close>: the capacity is computed in 64 bits and passed as an
  \<open>INT32\<close>.  \<open>slot\<close> is \<open>sizeof(movievideoframe_t)\<close>, a number the sources do not give.
\<close>

definition InitialiseVideoBuffer :: "movie \<Rightarrow> int \<Rightarrow> fatal + movie" where
  "InitialiseVideoBuffer movie slot =
     (case stream (videostream movie) of
        None \<Rightarrow> Inl SIGSEGV
      | Some st \<Rightarrow>
          let fps = avg_frame_rate st
          in if den fps = 0 then Inl SIGFPE
             else seq (InitialiseBuffer
                        (to_int32 (STREAM_BUFFER_TIME sdiv 1000 * num fps sdiv den fps))
                        slot zero_videoframe)
                  (\<lambda>b. Inr (movie\<lparr>videostream := (videostream movie)\<lparr>numplanes := 1, buffer := b\<rparr>\<rparr>)))"

text \<open>
  The capacity that \<open>InitialiseAudioBuffer\<close> passes to \<open>InitialiseBuffer\<close>, as the source
  writes it: \<open>STREAM_BUFFER_TIME / 1000 * sample_rate / samplesperframe\<close>.  The constant
  and \<open>sample_rate\<close> are \<open>int\<close>, so the product is an \<open>int\<close> and wraps at 32 bits;
  \<open>samplesperframe\<close> is an \<open>INT64\<close>, so the product is widened and the division is taken
  in 64 bits.
\<close>

definition audio_buffer_capacity :: "int \<Rightarrow> int \<Rightarrow> int" where
  "audio_buffer_capacity rate samplesperframe =
     to_int32 (STREAM_BUFFER_TIME sdiv 1000 * rate) sdiv samplesperframe"

text \<open>
  The loop of \<open>InitialiseAudioBuffer\<close> over the slots of the frame pool, from slot \<open>i\<close>
  on.  \<open>av_samples_alloc\<close> is the codec library's: \<open>alloc i\<close> is what its \<open>i\<close>-th call
  returns and the address it stores in \<open>frame->samples[0]\<close>.  The source aborts when it
  returns 0.
\<close>

lemma EnqueueBuffer_capacity:
  "EnqueueBuffer b = Inr (b', slot) \<Longrightarrow> capacity b' = capacity b"
  by (auto simp: EnqueueBuffer_def seq_def Let_def split: sum.splits)

lemma store_slot_capacity:
  "store_slot b p v = Inr b' \<Longrightarrow> capacity b' = capacity b"
  by (auto simp: store_slot_def split: option.splits if_splits)

function InitialiseAudioFrames ::
  "(int \<Rightarrow> int \<times> nat) \<Rightarrow> int \<Rightarrow> movieaudioframe moviebuffer
     \<Rightarrow> fatal + movieaudioframe moviebuffer" where
  "InitialiseAudioFrames alloc i pool =
     (if i < capacity pool
      then (case EnqueueBuffer pool of
              Inl e \<Rightarrow> Inl e
            | Inr (pool', slot) \<Rightarrow>
                (case load_slot pool' slot of
                   Inl e \<Rightarrow> Inl e
                 | Inr fr \<Rightarrow>
                     if fst (alloc i) = 0 then Inl (I_Error ''FFmpeg: cannot allocate samples'')
                     else (case store_slot pool' slot (fr\<lparr>samples0 := snd (alloc i)\<rparr>) of
                             Inl e \<Rightarrow> Inl e
                           | Inr pool'' \<Rightarrow> InitialiseAudioFrames alloc (i + 1) pool'')))
      else Inr pool)"
  by pat_completeness auto
termination
  by (relation "measure (\<lambda>(alloc, i, pool). nat (capacity pool - i))")
     (auto dest!: EnqueueBuffer_capacity store_slot_capacity)

declare InitialiseAudioFrames.simps [simp del]

definition InitialiseAudioBuffer ::
  "movieaudioframe moviestream \<Rightarrow> moviedecodeworker \<Rightarrow> int \<Rightarrow> (int \<Rightarrow> int \<times> nat)
     \<Rightarrow> fatal + movieaudioframe moviestream \<times> moviedecodeworker" where
  "InitialiseAudioBuffer st worker slot alloc =
     (let workerstream = audiostream_w worker
      in if stream st = None then Inr (st, worker)
         else (case codeccontext workerstream of
                 None \<Rightarrow> Inl SIGSEGV
               | Some ctx \<Rightarrow>
                   let planes = (if S16_is_planar then channels ctx else 1);
                       samplesperframe = GetSamplesPerFrame (nb_samples (frame worker)) (sample_rate ctx)
                   in if sample_rate ctx = 0 \<or> samplesperframe = 0 then Inl SIGFPE
                      else
                        seq (InitialiseBuffer
                               (to_int32 (audio_buffer_capacity (sample_rate ctx) samplesperframe))
                               slot zero_audioframe) (\<lambda>b.
                        seq (CloneBuffer b zero_audioframe) (\<lambda>q.
                        seq (CloneBuffer b zero_audioframe) (\<lambda>pool.
                        seq (InitialiseAudioFrames alloc 0 pool) (\<lambda>pool'.
                          Inr (st\<lparr>numplanes := planes, buffer := b\<rparr>,
                               worker\<lparr>audiostream_w :=
                                 workerstream\<lparr>framequeue := q, framepool := pool'\<rparr>\<rparr>)))))))"

subsection \<open>Packets\<close>


definition blank_packet :: AVPacket where
  "blank_packet = \<lparr>stream_index = 0, has_data = False\<rparr>"




text \<open>
  The loop of \<open>InitialisePacketQueue\<close> from slot \<open>i\<close> on.  \<open>av_packet_alloc\<close> gives a
  fresh blank packet, at the next free address of \<open>packet_store\<close>; \<open>alloc_ok i\<close> says
  whether its \<open>i\<close>-th call succeeds.
\<close>

function init_packets ::
  "(int \<Rightarrow> bool) \<Rightarrow> int \<Rightarrow> moviedecodeworker \<Rightarrow> fatal + moviedecodeworker" where
  "init_packets alloc_ok i worker =
     (if i < capacity (packetpool worker)
      then (if \<not> alloc_ok i then Inl (I_Error ''FFmpeg: cannot allocate packet'')
            else (let packet = length (packet_store worker);
                      worker1 = worker\<lparr>packet_store := packet_store worker @ [blank_packet]\<rparr>
                  in case EnqueueBuffer (packetpool worker1) of
                       Inl e \<Rightarrow> Inl e
                     | Inr (pool, packetslot) \<Rightarrow>
                         (case store_slot pool packetslot packet of
                            Inl e \<Rightarrow> Inl e
                          | Inr pool' \<Rightarrow>
                              init_packets alloc_ok (i + 1) (worker1\<lparr>packetpool := pool'\<rparr>))))
      else Inr worker)"
  by pat_completeness auto
termination
  by (relation "measure (\<lambda>(alloc_ok, i, worker). nat (capacity (packetpool worker) - i))")
     (auto dest!: EnqueueBuffer_capacity store_slot_capacity)

declare init_packets.simps [simp del]

definition sizeof_packet_pointer :: int where "sizeof_packet_pointer = 8"

definition InitialisePacketQueue ::
  "moviedecodeworker \<Rightarrow> (int \<Rightarrow> bool) \<Rightarrow> fatal + moviedecodeworker" where
  "InitialisePacketQueue worker alloc_ok =
     seq (InitialiseBuffer NUM_PACKETS sizeof_packet_pointer 0) (\<lambda>q.
     seq (CloneBuffer q 0) (\<lambda>pool.
       init_packets alloc_ok 0 (worker\<lparr>packetqueue := q, packetpool := pool\<rparr>)))"




subsection \<open>The decoding worker\<close>

text \<open>
  \<open>ParseVideoFrame\<close>: the scaling into the image of the frame and the conversion to a
  patch write pixel storage, which the model does not hold.  \<open>worker->frame\<close> has been
  filled by \<open>avcodec_receive_frame\<close>.
\<close>

definition ParseVideoFrame :: "moviedecodeworker \<Rightarrow> fatal + moviedecodeworker" where
  "ParseVideoFrame worker =
     (let vs = videostream_w worker
      in seq (PeekBuffer (framepool vs)) (\<lambda>slot.
         seq (load_slot (framepool vs) slot) (\<lambda>fr.
         seq (store_slot (framepool vs) slot
                (fr\<lparr>id_v := nextframeid worker, pts_v := frame_pts (frame worker),
                     duration_v := pkt_duration (frame worker)\<rparr>)) (\<lambda>pool.
         seq (DequeueBufferIntoBuffer (framequeue vs) pool) (\<lambda>(q, pool', s).
           Inr (worker\<lparr>nextframeid := nextframeid worker + 1,
                       videostream_w := vs\<lparr>framequeue := q, framepool := pool'\<rparr>\<rparr>))))))"


text \<open>The test \<open>queuesfull\<close> of \<open>DecoderThread\<close>.\<close>

definition queuesfull :: "moviedecodeworker \<Rightarrow> bool" where
  "queuesfull worker =
     (let vsize = size_b (framepool (videostream_w worker));
          asize = size_b (framepool (audiostream_w worker))
      in vsize = 0 \<or> (data (framequeue (audiostream_w worker)) \<noteq> None \<and> asize = 0))"

subsection \<open>Starting a movie\<close>

text \<open>
  The loop of \<open>InitialiseImages\<close> from slot \<open>i\<close> on.  \<open>malloc\<close> and \<open>av_image_alloc\<close>
  are the allocators: \<open>alloc i\<close> is the address the \<open>i\<close>-th allocation gives, or
  \<open>None\<close> when it fails; the allocation after the loop, of the temporary image, is
  \<open>alloc (capacity)\<close>.  Every allocation reads the width and the height of the video codec
  context first: \<open>InitialiseImages\<close> on a null context is \<open>SIGSEGV\<close> as soon as it
  allocates.
\<close>

function init_images ::
  "bool \<Rightarrow> (int \<Rightarrow> nat option) \<Rightarrow> int \<Rightarrow> movievideoframe moviebuffer
     \<Rightarrow> fatal + movievideoframe moviebuffer" where
  "init_images patches alloc i pool =
     (if i < capacity pool
      then (case EnqueueBuffer pool of
              Inl e \<Rightarrow> Inl e
            | Inr (pool', slot) \<Rightarrow>
                (case load_slot pool' slot of
                   Inl e \<Rightarrow> Inl e
                 | Inr fr \<Rightarrow>
                     (case alloc i of
                        None \<Rightarrow>
                          Inl (I_Error (if patches then ''FFmpeg: cannot allocate patch data''
                                        else ''FFmpeg: cannot allocate image''))
                      | Some a \<Rightarrow>
                          (case store_slot pool' slot
                                  (fr\<lparr>image := (if patches then (image fr)\<lparr>patch := a\<rparr>
                                                  else (image fr)\<lparr>rgba_data0 := a\<rparr>)\<rparr>) of
                             Inl e \<Rightarrow> Inl e
                           | Inr pool'' \<Rightarrow> init_images patches alloc (i + 1) pool''))))
      else Inr pool)"
  by pat_completeness auto
termination
  by (relation "measure (\<lambda>(patches, alloc, i, pool). nat (capacity pool - i))")
     (auto dest!: EnqueueBuffer_capacity store_slot_capacity)

declare init_images.simps [simp del]

definition InitialiseImages ::
  "moviedecodeworker \<Rightarrow> (int \<Rightarrow> nat option) \<Rightarrow> fatal + moviedecodeworker" where
  "InitialiseImages worker alloc =
     (let vs = videostream_w worker
      in if codeccontext vs = None \<and> (usepatches_w worker \<or> 0 < capacity (framepool vs))
         then Inl SIGSEGV
         else seq (init_images (usepatches_w worker) alloc 0 (framepool vs)) (\<lambda>pool.
                let worker1 = worker\<lparr>videostream_w := vs\<lparr>framepool := pool\<rparr>\<rparr>
                in if usepatches_w worker
                   then (case alloc (capacity pool) of
                           None \<Rightarrow> Inl (I_Error ''FFmpeg: cannot allocate image'')
                         | Some a \<Rightarrow> Inr (worker1\<lparr>tmpimage_data0 := a\<rparr>))
                   else Inr worker1))"

text \<open>
  What the codec library and the allocators answer while a movie starts:
  \<open>best_video\<close> and \<open>best_audio\<close> are the results of \<open>av_find_best_stream\<close>, \<open>streams\<close>
  the streams of the format context, \<open>open_codec\<close> the codec context that
  \<open>InitialiseDecoding\<close> builds for a stream (or the \<open>I_Error\<close> it ends in),
  \<open>alloc_image\<close> and \<open>alloc_packet\<close> the allocations, \<open>conversion_error\<close> the
  \<open>I_Error\<close> message when the frame, the scaling context or the resampling context
  cannot be made, and \<open>sizeof_videoframe\<close> is \<open>sizeof(movievideoframe_t)\<close>.
  \<open>InitialiseAudioConversion\<close> reads the audio codec context without testing it: a
  movie with no audio stream ends in \<open>SIGSEGV\<close> there.
\<close>

record library =
  demux_error :: "string option"
  best_video :: int
  best_audio :: int
  streams :: "AVStream list"
  open_codec :: "AVStream \<Rightarrow> fatal + AVCodecContext"
  alloc_image :: "int \<Rightarrow> nat option"
  alloc_packet :: "int \<Rightarrow> bool"
  conversion_error :: "string option"
  sizeof_videoframe :: int

definition get_stream :: "library \<Rightarrow> int \<Rightarrow> fatal + AVStream" where
  "get_stream lib i =
     (if 0 \<le> i \<and> i < int (length (streams lib)) then Inr (streams lib ! nat i) else Inl SIGSEGV)"

definition InitialiseDemuxing :: "movie \<Rightarrow> library \<Rightarrow> fatal + movie" where
  "InitialiseDemuxing movie lib =
     (case demux_error lib of
        Some msg \<Rightarrow> Inl (I_Error msg)
      | None \<Rightarrow>
          let movie1 = movie\<lparr>lumpposition := 0\<rparr>
          in if best_video lib < 0 then Inl (I_Error ''FFmpeg: cannot find video stream'')
             else seq (get_stream lib (best_video lib)) (\<lambda>vs.
               let movie2 = movie1\<lparr>videostream :=
                     (videostream movie1)\<lparr>index := best_video lib, stream := Some vs\<rparr>,
                   audiostream := (audiostream movie1)\<lparr>index := best_audio lib\<rparr>\<rparr>
               in if best_audio lib \<ge> 0
                  then seq (get_stream lib (best_audio lib)) (\<lambda>as.
                         Inr (movie2\<lparr>audiostream := (audiostream movie2)\<lparr>stream := Some as\<rparr>\<rparr>))
                  else Inr movie2))"

definition InitialiseDecoding :: "library \<Rightarrow> AVStream option \<Rightarrow> fatal + AVCodecContext option" where
  "InitialiseDecoding lib st =
     (case st of
        None \<Rightarrow> Inr None
      | Some s \<Rightarrow> seq (open_codec lib s) (\<lambda>c. Inr (Some c)))"

definition InitialiseDecodeWorker :: "movie \<Rightarrow> library \<Rightarrow> fatal + movie" where
  "InitialiseDecodeWorker movie lib =
     (let worker = decodeworker movie;
          vstream = videostream movie
      in seq (InitialiseDecoding lib (stream vstream)) (\<lambda>vctx.
         seq (InitialiseDecoding lib (stream (audiostream movie))) (\<lambda>actx.
         seq (CloneBuffer (buffer vstream) zero_videoframe) (\<lambda>q.
         seq (CloneBuffer (buffer vstream) zero_videoframe) (\<lambda>pool.
         let worker1 = worker\<lparr>usepatches_w := usepatches movie,
               videostream_w := (videostream_w worker)
                 \<lparr>index_w := index vstream, codeccontext := vctx,
                  framequeue := q, framepool := pool\<rparr>,
               audiostream_w := (audiostream_w worker)
                 \<lparr>index_w := index (audiostream movie), codeccontext := actx\<rparr>\<rparr>
         in seq (InitialiseImages worker1 (alloc_image lib)) (\<lambda>worker2.
            seq (InitialisePacketQueue worker2 (alloc_packet lib)) (\<lambda>worker3.
              case conversion_error lib of
                Some msg \<Rightarrow> Inl (I_Error msg)
              | None \<Rightarrow>
                  if actx = None then Inl SIGSEGV
                  else Inr (movie\<lparr>decodeworker := worker3\<lparr>frame := zero_frame\<rparr>\<rparr>))))))))"

text \<open>
  \<open>MovieDecode_Play\<close>: \<open>lump\<close> is the content of the lump \<open>Movies/name\<close>, or \<open>None\<close> when
  no archive has it.  The decoder thread it spawns is not part of the returned state.
\<close>

definition CacheMovieLump :: "movie \<Rightarrow> 8 word list option \<Rightarrow> fatal + movie" where
  "CacheMovieLump movie lump =
     (case lump of
        None \<Rightarrow> Inl (I_Error ''FFmpeg: cannot find movie lump'')
      | Some bytes \<Rightarrow> Inr (movie\<lparr>lumpsize := int (length bytes), lumpdata := bytes\<rparr>))"

definition MovieDecode_Play :: "8 word list option \<Rightarrow> bool \<Rightarrow> library \<Rightarrow> fatal + movie" where
  "MovieDecode_Play lump patches lib =
     (let movie = zero_movie\<lparr>lastvideoframeusedid := 0, position := 0, audioposition := 0,
                              usepatches := patches\<rparr>
      in seq (CacheMovieLump movie lump) (\<lambda>movie1.
         seq (InitialiseDemuxing movie1 lib) (\<lambda>movie2.
         seq (InitialiseVideoBuffer movie2 (sizeof_videoframe lib)) (\<lambda>movie3.
           InitialiseDecodeWorker movie3 lib))))"

subsection \<open>The consumer's calls\<close>


text \<open>
  \<open>MovieDecode_GetImage\<close> returns the movie and the pointer to the pixels, \<open>None\<close> for
  \<open>NULL\<close>.
\<close>

definition MovieDecode_GetImage :: "movie \<Rightarrow> fatal + movie \<times> nat option" where
  "MovieDecode_GetImage movie =
     seq (MSToVideoPTS movie (position movie)) (\<lambda>pts.
     seq (FindVideoBufferIndexForPosition movie pts) (\<lambda>bufferindex.
     seq (GetBufferSlot (buffer (videostream movie)) bufferindex) (\<lambda>slot.
       case slot of
         None \<Rightarrow> Inr (movie, None)
       | Some k \<Rightarrow>
           seq (load_slot (buffer (videostream movie)) slot) (\<lambda>fr.
             if lastvideoframeusedid movie \<noteq> id_v fr
             then Inr (movie\<lparr>lastvideoframeusedid := id_v fr\<rparr>,
                       Some (if usepatches movie then patch (image fr)
                             else rgba_data0 (image fr)))
             else Inr (movie, None)))))"



text \<open>
  \<open>memcpy\<close> of \<open>n\<close> bytes from offset \<open>spos\<close> of the allocation \<open>src\<close> to offset \<open>dpos\<close>
  of the allocation \<open>dst\<close>; leaving one of the two allocations is \<open>SIGSEGV\<close>.
\<close>

definition memcpy :: "8 word list \<Rightarrow> int \<Rightarrow> 8 word list \<Rightarrow> int \<Rightarrow> int \<Rightarrow> fatal + 8 word list" where
  "memcpy dst dpos src spos n =
     (if n = 0 then Inr dst
      else if 0 \<le> dpos \<and> 0 \<le> spos \<and> dpos + n \<le> int (length dst) \<and> spos + n \<le> int (length src)
      then Inr (take (nat dpos) dst @ take (nat n) (drop (nat spos) src) @ drop (nat (dpos + n)) dst)
      else Inl SIGSEGV)"









subsection \<open>Circular buffer over bytes\<close>

text \<open>
  The circular buffer at the level of its bytes, as \<open>DequeueBufferIntoBuffer\<close> uses it when
  the slot sizes of its two buffers differ.  \<open>data\<close> is the allocation as a list of bytes, and
  a pointer to a slot is the offset of its first byte in \<open>data\<close>: \<open>index * slotsize\<close>, an
  \<open>int\<close> product.  \<open>memcpy\<close> copies \<open>src->slotsize\<close> bytes, converted to \<open>size_t\<close>, from
  the source slot to the destination slot; through \<open>NULL\<close> or outside the allocations it
  is \<open>SIGSEGV\<close>.  The two buffers are two objects.
\<close>

definition GetBufferSlot_bytes :: "8 word moviebuffer \<Rightarrow> int \<Rightarrow> fatal + int option" where
  "GetBufferSlot_bytes buf idx =
     (if idx < 0 then Inr None
      else if capacity buf = 0 then Inl SIGFPE
      else Inr (Some (to_int32 ((start buf + idx) smod capacity buf * slotsize buf))))"

definition PeekBuffer_bytes :: "8 word moviebuffer \<Rightarrow> fatal + int option" where
  "PeekBuffer_bytes buf = GetBufferSlot_bytes buf 0"

definition EnqueueBuffer_bytes ::
  "8 word moviebuffer \<Rightarrow> fatal + 8 word moviebuffer \<times> int option" where
  "EnqueueBuffer_bytes buf =
     (let buf1 = buf\<lparr>size_b := size_b buf + 1\<rparr>
      in seq (GetBufferSlot_bytes buf1 (size_b buf1 - 1)) (\<lambda>slot. Inr (buf1, slot)))"

definition DequeueBuffer_bytes ::
  "8 word moviebuffer \<Rightarrow> fatal + 8 word moviebuffer \<times> int option" where
  "DequeueBuffer_bytes buf =
     seq (PeekBuffer_bytes buf) (\<lambda>slot.
       if capacity buf = 0 then Inl SIGFPE
       else Inr (buf\<lparr>start := (start buf + 1) smod capacity buf,
                         size_b := size_b buf - 1\<rparr>, slot))"

definition DequeueBufferIntoBuffer_bytes ::
  "8 word moviebuffer \<Rightarrow> 8 word moviebuffer
     \<Rightarrow> fatal + 8 word moviebuffer \<times> 8 word moviebuffer \<times> int option" where
  "DequeueBufferIntoBuffer_bytes dst src =
     seq (DequeueBuffer_bytes src) (\<lambda>(src', srcslot).
     seq (EnqueueBuffer_bytes dst) (\<lambda>(dst', dstslot).
       if to_size_t (slotsize src') = 0 then Inr (dst', src', dstslot)
       else (case (data dst', dstslot, data src', srcslot) of
               (Some dd, Some dp, Some sd, Some sp) \<Rightarrow>
                 seq (memcpy dd dp sd sp (to_size_t (slotsize src'))) (\<lambda>dd'.
                   Inr (dst'\<lparr>data := Some dd'\<rparr>, src', dstslot))
             | _ \<Rightarrow> Inl SIGSEGV)))"

subsection \<open>RGBA to patch conversion\<close>

text \<open>
  \<open>WRITEUINT8\<close> and \<open>WRITEUINT32\<close> are macros of \<open>byteptr.h\<close>, which is not among the
  sources: they store the value, cut to 8 or 32 bits, at \<open>dst\<close> and advance \<open>dst\<close>; the
  32-bit store is little-endian.  Here \<open>dst\<close> is the list of the bytes written so far.
  \<open>CLUTINDEX\<close> is a macro of the video headers, taken as a parameter.  A read outside
  \<open>src\<close> is \<open>SIGSEGV\<close>.  The four loops of \<open>ConvertRGBAToPatch\<close> are
  \<open>patch_offsets\<close> (the column offsets), \<open>patch_columns\<close> (the columns),
  \<open>patch_posts\<close> (the posts of a column) and \<open>patch_pixels\<close> (the pixels of a post).
\<close>

definition GetBytesPerPatchColumn :: "moviedecodeworker \<Rightarrow> fatal + int" where
  "GetBytesPerPatchColumn worker =
     (case codeccontext (videostream_w worker) of
        None \<Rightarrow> Inl SIGSEGV
      | Some ctx \<Rightarrow>
          let h = height ctx;
              numpostspercolumn = (h + POST_MAX_HEIGHT - 1) sdiv POST_MAX_HEIGHT
          in Inr (h + numpostspercolumn * POST_BASE_BYTES + 1))"

definition le32 :: "32 word \<Rightarrow> 8 word list" where
  "le32 v = [ucast v, ucast (drop_bit 8 v), ucast (drop_bit 16 v), ucast (drop_bit 24 v)]"

definition WRITEUINT8 :: "8 word list \<Rightarrow> int \<Rightarrow> 8 word list" where
  "WRITEUINT8 dst v = dst @ [word_of_int v]"

definition WRITEUINT32 :: "8 word list \<Rightarrow> int \<Rightarrow> 8 word list" where
  "WRITEUINT32 dst v = dst @ le32 (word_of_int v)"

definition read_byte :: "8 word list \<Rightarrow> int \<Rightarrow> 8 word option" where
  "read_byte src i = (if 0 \<le> i \<and> i < int (length src) then Some (src ! nat i) else None)"

function patch_offsets :: "int \<Rightarrow> int \<Rightarrow> int \<Rightarrow> 8 word list \<Rightarrow> 8 word list" where
  "patch_offsets w bytespercolumn x dst =
     (if x < w
      then patch_offsets w bytespercolumn (x + 1)
             (WRITEUINT32 dst (w * 4 + x * bytespercolumn + (POST_BASE_BYTES - 1)))
      else dst)"
  by pat_completeness auto
termination
  by (relation "measure (\<lambda>(w, b, x, dst). nat (w - x))") auto

declare patch_offsets.simps [simp del]

function patch_pixels ::
  "(nat \<Rightarrow> 16 word) \<Rightarrow> (8 word \<Rightarrow> 8 word \<Rightarrow> 8 word \<Rightarrow> nat) \<Rightarrow> 8 word list \<Rightarrow> int \<Rightarrow> int
     \<Rightarrow> int \<Rightarrow> int \<Rightarrow> 8 word list \<Rightarrow> fatal + int \<times> int \<times> 8 word list" where
  "patch_pixels lut CLUTINDEX src stride postend y srcptr dst =
     (if y < postend
      then (case read_byte src srcptr of
              None \<Rightarrow> Inl SIGSEGV
            | Some r \<Rightarrow>
                (case read_byte src (srcptr + 1) of
                   None \<Rightarrow> Inl SIGSEGV
                 | Some g \<Rightarrow>
                     (case read_byte src (srcptr + 2) of
                        None \<Rightarrow> Inl SIGSEGV
                      | Some b \<Rightarrow>
                          patch_pixels lut CLUTINDEX src stride postend (y + 1) (srcptr + stride)
                            (WRITEUINT8 dst (uint (lut (CLUTINDEX r g b)))))))
      else Inr (y, srcptr, dst))"
  by pat_completeness auto
termination
  by (relation "measure (\<lambda>(lut, c, src, stride, postend, y, srcptr, dst). nat (postend - y))") auto

declare patch_pixels.simps [simp del]

lemma patch_pixels_y:
  "patch_pixels lut c src stride postend y srcptr dst = Inr (y', srcptr', dst') \<Longrightarrow>
     y' = max y postend"
proof (induction lut c src stride postend y srcptr dst rule: patch_pixels.induct)
  case (1 lut c src stride postend y srcptr dst)
  show ?case
  proof (cases "y < postend")
    case True
    with "1.prems" obtain r g b where
      rd: "read_byte src srcptr = Some r" "read_byte src (srcptr + 1) = Some g"
          "read_byte src (srcptr + 2) = Some b"
      and rec: "patch_pixels lut c src stride postend (y + 1) (srcptr + stride)
                  (WRITEUINT8 dst (uint (lut (c r g b)))) = Inr (y', srcptr', dst')"
      by (subst (asm) patch_pixels.simps) (auto split: option.splits)
    from "1.IH" [OF True rd rec] True show ?thesis by simp
  next
    case False
    with "1.prems" show ?thesis by (subst (asm) patch_pixels.simps) simp
  qed
qed

function patch_posts ::
  "(nat \<Rightarrow> 16 word) \<Rightarrow> (8 word \<Rightarrow> 8 word \<Rightarrow> 8 word \<Rightarrow> nat) \<Rightarrow> 8 word list \<Rightarrow> int \<Rightarrow> int
     \<Rightarrow> int \<Rightarrow> int \<Rightarrow> 8 word list \<Rightarrow> fatal + 8 word list" where
  "patch_posts lut CLUTINDEX src stride h y srcptr dst =
     (if y < h
      then (let postend = min (y + POST_MAX_HEIGHT) h;
                dst1 = WRITEUINT8 dst (if y \<noteq> 0 then POST_MAX_HEIGHT else 0);
                dst2 = WRITEUINT8 dst1 (postend - y);
                dst3 = WRITEUINT8 dst2 0
            in case patch_pixels lut CLUTINDEX src stride postend y srcptr dst3 of
                 Inl e \<Rightarrow> Inl e
               | Inr (y', srcptr', dst4) \<Rightarrow>
                   patch_posts lut CLUTINDEX src stride h y' srcptr' (WRITEUINT8 dst4 0))
      else Inr dst)"
  by pat_completeness auto
termination
  by (relation "measure (\<lambda>(lut, c, src, stride, h, y, srcptr, dst). nat (h - y))")
     (auto dest!: patch_pixels_y simp: POST_MAX_HEIGHT_def)

declare patch_posts.simps [simp del]

function patch_columns ::
  "(nat \<Rightarrow> 16 word) \<Rightarrow> (8 word \<Rightarrow> 8 word \<Rightarrow> 8 word \<Rightarrow> nat) \<Rightarrow> 8 word list \<Rightarrow> int \<Rightarrow> int
     \<Rightarrow> int \<Rightarrow> 8 word list \<Rightarrow> fatal + 8 word list" where
  "patch_columns lut CLUTINDEX src w h x dst =
     (if x < w
      then (case patch_posts lut CLUTINDEX src (4 * w) h 0 (4 * x) dst of
              Inl e \<Rightarrow> Inl e
            | Inr dst' \<Rightarrow> patch_columns lut CLUTINDEX src w h (x + 1) (WRITEUINT8 dst' 255))
      else Inr dst)"
  by pat_completeness auto
termination
  by (relation "measure (\<lambda>(lut, c, src, w, h, x, dst). nat (w - x))") auto

declare patch_columns.simps [simp del]

definition ConvertRGBAToPatch ::
  "moviedecodeworker \<Rightarrow> (8 word \<Rightarrow> 8 word \<Rightarrow> 8 word \<Rightarrow> nat) \<Rightarrow> 8 word list \<Rightarrow> fatal + 8 word list" where
  "ConvertRGBAToPatch worker CLUTINDEX src =
     (let w = frame_width (frame worker);
          h = frame_height (frame worker);
          lut = colorlut worker
      in seq (GetBytesPerPatchColumn worker) (\<lambda>bytespercolumn.
           patch_columns lut CLUTINDEX src w h 0 (patch_offsets w bytespercolumn 0 [])))"

text \<open>
  The layout the spec describes.  \<open>spec_post\<close> is one post: top delta, length, an unused
  byte, the pixels, an unused byte.  \<open>spec_posts\<close> splits the pixels of a column into
  posts of 254 pixels and a remainder; the first post has top delta 0, the others 254.
  \<open>spec_pixel\<close> is the palette index of pixel \<open>(x, y)\<close> of an image \<open>w\<close> pixels wide,
  and \<open>spec_patch\<close> is the whole output: the column offsets, then the columns, each
  closed by \<open>0xFF\<close>.  \<open>read_le32\<close> reads four bytes as a little-endian number.
\<close>

definition spec_bytes_per_column :: "nat \<Rightarrow> nat" where
  "spec_bytes_per_column h = h + nat \<lceil>real h / 254\<rceil> * 4 + 1"

definition spec_post :: "bool \<Rightarrow> 8 word list \<Rightarrow> 8 word list" where
  "spec_post first ps = [if first then 0 else 254, of_nat (length ps), 0] @ ps @ [0]"

function spec_posts :: "bool \<Rightarrow> 8 word list \<Rightarrow> 8 word list" where
  "spec_posts first ps =
     (if ps = [] then [] else spec_post first (take 254 ps) @ spec_posts False (drop 254 ps))"
  by pat_completeness auto
termination
  by (relation "measure (\<lambda>(first, ps). length ps)") auto

declare spec_posts.simps [simp del]

definition spec_pixel ::
  "(nat \<Rightarrow> 16 word) \<Rightarrow> (8 word \<Rightarrow> 8 word \<Rightarrow> 8 word \<Rightarrow> nat) \<Rightarrow> 8 word list \<Rightarrow> nat \<Rightarrow> nat \<Rightarrow> nat
     \<Rightarrow> 8 word" where
  "spec_pixel lut CLUTINDEX src w x y =
     (let p = 4 * x + y * (4 * w)
      in ucast (lut (CLUTINDEX (src ! p) (src ! (p + 1)) (src ! (p + 2)))))"

definition spec_patch ::
  "(nat \<Rightarrow> 16 word) \<Rightarrow> (8 word \<Rightarrow> 8 word \<Rightarrow> 8 word \<Rightarrow> nat) \<Rightarrow> 8 word list \<Rightarrow> nat \<Rightarrow> nat
     \<Rightarrow> 8 word list" where
  "spec_patch lut CLUTINDEX src w h =
     concat (map (\<lambda>x. le32 (of_nat (w * 4 + x * spec_bytes_per_column h + 3))) [0..<w])
     @ concat (map (\<lambda>x. spec_posts True (map (spec_pixel lut CLUTINDEX src w x) [0..<h]) @ [255])
                 [0..<w])"

text \<open>\<open>pixel_at\<close> is the palette index of the pixel whose bytes start at address \<open>p\<close> of \<open>src\<close>.\<close>

definition pixel_at ::
  "(nat \<Rightarrow> 16 word) \<Rightarrow> (8 word \<Rightarrow> 8 word \<Rightarrow> 8 word \<Rightarrow> nat) \<Rightarrow> 8 word list \<Rightarrow> int \<Rightarrow> 8 word" where
  "pixel_at lut c src p =
     word_of_int (uint (lut (c (src ! nat p) (src ! nat (p + 1)) (src ! nat (p + 2)))))"

definition read_le32 :: "8 word list \<Rightarrow> nat" where
  "read_le32 bs = unat (bs ! 0) + 256 * unat (bs ! 1) + 65536 * unat (bs ! 2)
                  + 16777216 * unat (bs ! 3)"

subsection \<open>Frame slots of a stream\<close>

text \<open>The slots of a stream are shared by three buffers: the stream's own buffer on the
  consumer's side, and the frame queue and the frame pool of the worker's stream.\<close>

definition frame_slots :: "'f moviestream \<Rightarrow> 'f moviedecodeworkerstream \<Rightarrow> int" where
  "frame_slots st ws = size_b (buffer st) + size_b (framequeue ws) + size_b (framepool ws)"

text \<open>The three buffers of a stream have one capacity, hold that many slots together, and
  are well formed once they have been allocated.\<close>

definition stream_inv :: "'f moviestream \<Rightarrow> 'f moviedecodeworkerstream \<Rightarrow> bool" where
  "stream_inv st ws =
     (capacity (framequeue ws) = capacity (buffer st)
      \<and> capacity (framepool ws) = capacity (buffer st)
      \<and> frame_slots st ws = capacity (buffer st)
      \<and> 0 \<le> size_b (buffer st) \<and> 0 \<le> size_b (framequeue ws) \<and> 0 \<le> size_b (framepool ws)
      \<and> (capacity (buffer st) \<noteq> 0 \<longrightarrow>
            wf_buffer (buffer st) \<and> wf_buffer (framequeue ws) \<and> wf_buffer (framepool ws)))"

definition trio :: "int \<Rightarrow> 'a moviebuffer \<Rightarrow> 'a moviebuffer \<Rightarrow> 'a moviebuffer \<Rightarrow> bool" where
  "trio c x y z =
     (capacity x = c \<and> capacity y = c \<and> capacity z = c
      \<and> size_b x + size_b y + size_b z = c
      \<and> 0 \<le> size_b x \<and> 0 \<le> size_b y \<and> 0 \<le> size_b z
      \<and> (c \<noteq> 0 \<longrightarrow> wf_buffer x \<and> wf_buffer y \<and> wf_buffer z))"

text \<open>Filling a pool: the loops that enqueue every slot once.\<close>

definition filling :: "'a moviebuffer \<Rightarrow> int \<Rightarrow> bool" where
  "filling pool i =
     (0 \<le> i \<and> size_b pool = i \<and> start pool = 0 \<and> 0 \<le> capacity pool \<and> i \<le> capacity pool
      \<and> (case data pool of None \<Rightarrow> False | Some d \<Rightarrow> int (length d) = capacity pool))"

definition movie_inv :: "movie \<Rightarrow> bool" where
  "movie_inv m =
     (stream_inv (videostream m) (videostream_w (decodeworker m))
      \<and> stream_inv (audiostream m) (audiostream_w (decodeworker m)))"

subsection \<open>Steps of a playing movie\<close>



subsection \<open>Example states\<close>

definition example_audio_stream :: "movieaudioframe moviestream" where
  "example_audio_stream =
     zero_stream\<lparr>index := 1,
       stream := Some \<lparr>time_base = \<lparr>num = 1, den = 8000\<rparr>, avg_frame_rate = \<lparr>num = 0, den = 1\<rparr>\<rparr>\<rparr>"

definition example_audio_worker :: moviedecodeworker where
  "example_audio_worker =
     zero_worker\<lparr>audiostream_w := zero_workerstream\<lparr>index_w := 1,
         codeccontext := Some \<lparr>width = 0, height = 0, sample_rate = 8000, channels = 2\<rparr>\<rparr>,
       frame := zero_frame\<lparr>nb_samples := 2177\<rparr>\<rparr>"

definition example_patch_worker :: "int \<Rightarrow> int \<Rightarrow> moviedecodeworker" where
  "example_patch_worker w h =
     zero_worker\<lparr>videostream_w := zero_workerstream\<lparr>codeccontext :=
         Some \<lparr>width = w, height = h, sample_rate = 0, channels = 0\<rparr>\<rparr>,
       frame := zero_frame\<lparr>frame_width := w, frame_height := h\<rparr>,
       colorlut := (\<lambda>i. of_nat i)\<rparr>"

definition example_CLUTINDEX :: "8 word \<Rightarrow> 8 word \<Rightarrow> 8 word \<Rightarrow> nat" where
  "example_CLUTINDEX r g b = unat r"

definition example_rgba :: "8 word list" where
  "example_rgba = [10, 20, 30, 255, 40, 50, 60, 255]"

text \<open>A library that opens a movie of two streams, a 1 by 2 video at half a frame per
  second and a stereo audio at 8000 Hz, and a run on it: play, one decoded video frame, one
  drain of the video queue.\<close>

definition example_library :: library where
  "example_library =
     \<lparr>demux_error = None, best_video = 0, best_audio = 1,
      streams = [\<lparr>time_base = \<lparr>num = 1, den = 1000\<rparr>, avg_frame_rate = \<lparr>num = 1, den = 2\<rparr>\<rparr>,
                 \<lparr>time_base = \<lparr>num = 1, den = 8000\<rparr>, avg_frame_rate = \<lparr>num = 0, den = 1\<rparr>\<rparr>],
      open_codec = (\<lambda>s. Inr \<lparr>width = 1, height = 2, sample_rate = 8000, channels = 2\<rparr>),
      alloc_image = (\<lambda>i. Some (nat i + 1000)),
      alloc_packet = (\<lambda>i. True),
      conversion_error = None,
      sizeof_videoframe = 48\<rparr>"

definition example_run :: "fatal + movie \<times> moviedecodeworker \<times> movie" where
  "example_run =
     seq (MovieDecode_Play (Some []) False example_library) (\<lambda>m0.
     seq (ParseVideoFrame ((decodeworker m0)\<lparr>frame := zero_frame\<lparr>frame_pts := 0, pkt_duration := 500\<rparr>\<rparr>))
       (\<lambda>w1.
     seq (PollVideoFrameQueue (m0\<lparr>decodeworker := w1\<rparr>)) (\<lambda>m2. Inr (m0, w1, m2))))"


subsection \<open>Packets in order\<close>





subsection \<open>Positions of the audio frames\<close>





subsection \<open>Copying audio samples: the spec's words\<close>







section \<open>Properties\<close>

subsection \<open>Auxiliary facts\<close>

lemma sdiv_nonneg_pos: "0 \<le> a \<Longrightarrow> 0 < b \<Longrightarrow> a sdiv b = a div (b::int)"
  by (simp add: signed_divide_int_def sgn_if)

lemma int_div_bounds:
  fixes a c :: int
  assumes "0 < c"
  shows "c * (a div c) \<le> a" and "a < c * (a div c) + c"
proof -
  have "c * (a div c) + a mod c = a" by simp
  moreover have "0 \<le> a mod c" "a mod c < c" using assms by simp_all
  ultimately show "c * (a div c) \<le> a" and "a < c * (a div c) + c" by linarith+
qed

lemma audio_capacity_formula:
  assumes "0 < in_samples" "0 < in_rate" "in_rate < 2 ^ 29"
  shows "audio_buffer_capacity in_rate (GetSamplesPerFrame in_samples in_rate)
       = STREAM_BUFFER_TIME * in_rate sdiv (in_samples * SAMPLE_RATE sdiv in_rate + 1) sdiv 1000"
proof -
  define spf where "spf = in_samples * 44100 div in_rate + 1"
  have spf: "0 < spf" using assms by (simp add: spf_def pos_imp_zdiv_nonneg_iff add_pos_nonneg)
  have g: "GetSamplesPerFrame in_samples in_rate = spf"
    using assms by (simp add: GetSamplesPerFrame_def SAMPLE_RATE_def spf_def sdiv_nonneg_pos)
  have w: "to_int32 (4 * in_rate) = 4 * in_rate"
    using assms by (simp add: to_int32_def)
  have l: "audio_buffer_capacity in_rate spf = 4 * in_rate div spf"
    using assms spf w
    by (simp add: audio_buffer_capacity_def STREAM_BUFFER_TIME_def sdiv_nonneg_pos)
  have "4000 * in_rate div spf div 1000 = 4000 * in_rate div (spf * 1000)"
    using spf by (simp add: zdiv_zmult2_eq)
  also have "\<dots> = (1000 * (4 * in_rate)) div (1000 * spf)" by (simp add: mult.commute)
  also have "\<dots> = 4 * in_rate div spf" by (simp only: div_mult_mult1 [of 1000])
  finally have r: "4000 * in_rate div spf div 1000 = 4 * in_rate div spf" .
  have "0 \<le> 4000 * in_rate div spf" using assms spf by (simp add: pos_imp_zdiv_nonneg_iff)
  then have "STREAM_BUFFER_TIME * in_rate sdiv (in_samples * SAMPLE_RATE sdiv in_rate + 1) sdiv 1000
       = 4000 * in_rate div spf div 1000"
    using assms spf by (simp add: STREAM_BUFFER_TIME_def SAMPLE_RATE_def sdiv_nonneg_pos spf_def)
  then show ?thesis using g l r by simp
qed

lemma to_int32_id: "0 \<le> n \<Longrightarrow> n < 2 ^ 31 \<Longrightarrow> to_int32 n = n"
  by (simp add: to_int32_def)

lemma to_size_t_id: "0 \<le> n \<Longrightarrow> n < 2 ^ 64 \<Longrightarrow> to_size_t n = n"
  by (simp add: to_size_t_def)

lemma InitialiseAudioFrames_capacity:
  "InitialiseAudioFrames alloc i pool = Inr pool' \<Longrightarrow> capacity pool' = capacity pool"
proof (induction alloc i pool rule: InitialiseAudioFrames.induct)
  case (1 alloc i pool)
  show ?case
  proof (cases "i < capacity pool")
    case True
    with "1.prems" obtain p1 slot fr p2 where
      e: "EnqueueBuffer pool = Inr (p1, slot)" and
      l: "load_slot p1 slot = Inr fr" and
      a: "fst (alloc i) \<noteq> 0" and
      st: "store_slot p1 slot (fr\<lparr>samples0 := snd (alloc i)\<rparr>) = Inr p2" and
      r: "InitialiseAudioFrames alloc (i + 1) p2 = Inr pool'"
      by (subst (asm) InitialiseAudioFrames.simps)
         (auto split: sum.splits if_splits prod.splits)
    from "1.IH" [OF True e refl l a st] r have "capacity pool' = capacity p2" by simp
    with EnqueueBuffer_capacity [OF e] store_slot_capacity [OF st] show ?thesis by simp
  next
    case False
    with "1.prems" show ?thesis by (subst (asm) InitialiseAudioFrames.simps) simp
  qed
qed

lemma InitialiseBuffer_capacity: "InitialiseBuffer c s z = Inr b \<Longrightarrow> capacity b = c"
  by (auto simp: InitialiseBuffer_def split: option.splits)

lemma CloneBuffer_capacity: "CloneBuffer src z = Inr b \<Longrightarrow> capacity b = capacity src"
  by (auto simp: CloneBuffer_def split: option.splits if_splits)

subsection \<open>Time conversion round trip\<close>

lemma SamplesToMS_nonneg:
  "0 \<le> s \<Longrightarrow> SamplesToMS s = (s * 1000 + 22050) div 44100"
  by (simp add: SamplesToMS_def av_rescale_q_def av_rescale_rnd_near_inf_def
      SAMPLE_RATE_def sdiv_nonneg_pos)

lemma MSToSamples_nonneg:
  "0 \<le> ms \<Longrightarrow> MSToSamples ms = (ms * 44100 + 500) div 1000"
  by (simp add: MSToSamples_def av_rescale_q_def av_rescale_rnd_near_inf_def
      SAMPLE_RATE_def sdiv_nonneg_pos)

text \<open>
  C6 (as stated, refuted): the round trip of 22 samples through milliseconds is 0 samples,
  a drift of 22 samples, not of at most 1.
\<close>

theorem C6_roundtrip_counterexample:
  "MSToSamples (SamplesToMS 22) = 0 \<and> \<not> \<bar>MSToSamples (SamplesToMS 22) - 22\<bar> \<le> 1"
  by (simp add: SamplesToMS_nonneg MSToSamples_nonneg)

text \<open>
  C6 (amended): for every sample index \<open>s \<ge> 0\<close>, \<open>MSToSamples (SamplesToMS s)\<close> differs
  from \<open>s\<close> by at most 22 samples (half a millisecond at 44100 Hz, rounded).
\<close>

theorem C6_roundtrip_within_22:
  assumes "0 \<le> s"
  shows "\<bar>MSToSamples (SamplesToMS s) - s\<bar> \<le> 22"
proof -
  define ms where "ms = (s * 1000 + 22050) div 44100"
  define r where "r = (ms * 44100 + 500) div 1000"
  have ms0: "0 \<le> ms"
    using assms by (simp add: ms_def pos_imp_zdiv_nonneg_iff)
  have ms_lo: "44100 * ms \<le> s * 1000 + 22050"
    and ms_hi: "s * 1000 + 22050 < 44100 * ms + 44100"
    unfolding ms_def by (rule int_div_bounds, simp)+
  have r_lo: "1000 * r \<le> ms * 44100 + 500"
    and r_hi: "ms * 44100 + 500 < 1000 * r + 1000"
    unfolding r_def by (rule int_div_bounds, simp)+
  have "MSToSamples (SamplesToMS s) = r"
    using assms ms0 by (simp add: SamplesToMS_nonneg MSToSamples_nonneg ms_def r_def)
  moreover have "r \<le> s + 22" using r_lo ms_lo by linarith
  moreover have "s - 22 \<le> r" using r_hi ms_hi by linarith
  ultimately show ?thesis by linarith
qed

theorem C6_roundtrip_within_22_witness:
  "(0::int) \<le> 22 \<and> \<bar>MSToSamples (SamplesToMS 22) - 22\<bar> \<le> 22"
  using C6_roundtrip_within_22 [of 22] by simp

subsection \<open>Circular buffer: misuse\<close>

text \<open>
  C7 (as stated, refuted): no operation of the circular buffer aborts on misuse.  Dequeuing
  from an empty buffer returns normally and leaves \<open>size = -1\<close>; enqueuing into a full
  buffer returns normally, leaves \<open>size = capacity + 1\<close> and hands out slot 0, which
  still holds the oldest element; moving a slot of 2 bytes into a buffer whose slots have 1
  byte returns normally, and the second byte copied replaces the 7 in the slot that follows
  the slot handed out.
\<close>

theorem C7_misuse_counterexample:
  "DequeueBuffer \<lparr>capacity = 2, slotsize = 8, start = 0, size_b = 0, data = Some [0::nat, 0]\<rparr>
     = Inr (\<lparr>capacity = 2, slotsize = 8, start = 1, size_b = - 1, data = Some [0, 0]\<rparr>, Some 0)
   \<and> EnqueueBuffer \<lparr>capacity = 2, slotsize = 8, start = 0, size_b = 2, data = Some [10::nat, 20]\<rparr>
     = Inr (\<lparr>capacity = 2, slotsize = 8, start = 0, size_b = 3, data = Some [10, 20]\<rparr>, Some 0)
   \<and> DequeueBufferIntoBuffer_bytes
       \<lparr>capacity = 2, slotsize = 1, start = 0, size_b = 0, data = Some [0, 7]\<rparr>
       \<lparr>capacity = 2, slotsize = 2, start = 0, size_b = 1, data = Some [10, 0, 20, 0]\<rparr>
     = Inr (\<lparr>capacity = 2, slotsize = 1, start = 0, size_b = 1, data = Some [10, 0]\<rparr>,
            \<lparr>capacity = 2, slotsize = 2, start = 1, size_b = 0, data = Some [10, 0, 20, 0]\<rparr>,
            Some 0)"
  by (simp add: DequeueBuffer_def EnqueueBuffer_def PeekBuffer_def GetBufferSlot_def seq_def
      DequeueBufferIntoBuffer_bytes_def DequeueBuffer_bytes_def EnqueueBuffer_bytes_def
      PeekBuffer_bytes_def GetBufferSlot_bytes_def memcpy_def to_size_t_def to_int32_def
      signed_modulo_int_def)

text \<open>
  C7 (amended): the circular buffer operations check nothing.  On a buffer of non-zero
  capacity, \<open>DequeueBuffer\<close> returns normally whatever \<open>size\<close> is (it advances
  \<open>start\<close> modulo the capacity and decrements \<open>size\<close>, below zero on an empty buffer),
  and \<open>EnqueueBuffer\<close> returns normally whatever \<open>size\<close> is (it increments \<open>size\<close>,
  beyond the capacity on a full buffer, and hands out slot \<open>(start + size) % capacity\<close>, or
  \<open>NULL\<close> when \<open>size\<close> was negative).  \<open>DequeueBufferIntoBuffer\<close> between two buffers of
  non-zero capacity never calls \<open>I_Error\<close>, whatever the two slot sizes are; when the
  destination had a non-negative \<open>size\<close> and the \<open>slotsize\<close> bytes of the source slot lie
  inside the two allocations from the two slot addresses on, it returns normally, having
  written that many bytes from the address of the destination slot on: the bytes of the
  slots that follow when the destination's slots are smaller.
\<close>

theorem C7_ring_buffer_unchecked:
  assumes "capacity b \<noteq> 0" and "capacity dst \<noteq> 0" and "capacity src \<noteq> 0"
  shows "DequeueBuffer b =
           Inr (b\<lparr>start := (start b + 1) smod capacity b, size_b := size_b b - 1\<rparr>,
                Some (start b smod capacity b))
       \<and> EnqueueBuffer b =
           Inr (b\<lparr>size_b := size_b b + 1\<rparr>,
                if size_b b < 0 then None else Some ((start b + size_b b) smod capacity b))
       \<and> (\<forall>msg. DequeueBufferIntoBuffer_bytes dst src \<noteq> Inl (I_Error msg))
       \<and> (\<forall>dd sd dp sp n.
             data dst = Some dd \<and> data src = Some sd \<and> 0 \<le> size_b dst
             \<and> dp = to_int32 ((start dst + size_b dst) smod capacity dst * slotsize dst)
             \<and> sp = to_int32 (start src smod capacity src * slotsize src)
             \<and> n = slotsize src \<and> 0 < n \<and> n < 2 ^ 31
             \<and> 0 \<le> dp \<and> dp + n \<le> int (length dd) \<and> 0 \<le> sp \<and> sp + n \<le> int (length sd)
             \<longrightarrow> DequeueBufferIntoBuffer_bytes dst src =
                   Inr (dst\<lparr>size_b := size_b dst + 1,
                            data := Some (take (nat dp) dd @ take (nat n) (drop (nat sp) sd)
                                          @ drop (nat (dp + n)) dd)\<rparr>,
                        src\<lparr>start := (start src + 1) smod capacity src,
                            size_b := size_b src - 1\<rparr>,
                        Some dp))"
proof (intro conjI allI impI)
  show "DequeueBuffer b =
          Inr (b\<lparr>start := (start b + 1) smod capacity b, size_b := size_b b - 1\<rparr>,
               Some (start b smod capacity b))"
    using assms by (simp add: DequeueBuffer_def PeekBuffer_def GetBufferSlot_def seq_def)
  show "EnqueueBuffer b =
          Inr (b\<lparr>size_b := size_b b + 1\<rparr>,
               if size_b b < 0 then None else Some ((start b + size_b b) smod capacity b))"
    using assms by (simp add: EnqueueBuffer_def GetBufferSlot_def seq_def)
next
  fix msg
  show "DequeueBufferIntoBuffer_bytes dst src \<noteq> Inl (I_Error msg)"
    using assms
    by (auto simp: DequeueBufferIntoBuffer_bytes_def DequeueBuffer_bytes_def
        EnqueueBuffer_bytes_def PeekBuffer_bytes_def GetBufferSlot_bytes_def memcpy_def seq_def
        Let_def split: option.splits if_splits)
next
  fix dd sd dp sp n
  assume h: "data dst = Some dd \<and> data src = Some sd \<and> 0 \<le> size_b dst
             \<and> dp = to_int32 ((start dst + size_b dst) smod capacity dst * slotsize dst)
             \<and> sp = to_int32 (start src smod capacity src * slotsize src)
             \<and> n = slotsize src \<and> 0 < n \<and> n < 2 ^ 31
             \<and> 0 \<le> dp \<and> dp + n \<le> int (length dd) \<and> 0 \<le> sp \<and> sp + n \<le> int (length sd)"
  then have n: "to_size_t (slotsize src) = n" "n \<noteq> 0"
    by (simp_all add: to_size_t_def)
  show "DequeueBufferIntoBuffer_bytes dst src =
                   Inr (dst\<lparr>size_b := size_b dst + 1,
                            data := Some (take (nat dp) dd @ take (nat n) (drop (nat sp) sd)
                                          @ drop (nat (dp + n)) dd)\<rparr>,
                        src\<lparr>start := (start src + 1) smod capacity src,
                            size_b := size_b src - 1\<rparr>,
                        Some dp)"
    using assms h n
    by (simp add: DequeueBufferIntoBuffer_bytes_def DequeueBuffer_bytes_def
        EnqueueBuffer_bytes_def PeekBuffer_bytes_def GetBufferSlot_bytes_def memcpy_def seq_def
        Let_def)
qed

theorem C7_ring_buffer_unchecked_witness:
  "capacity \<lparr>capacity = 2, slotsize = 8, start = 1, size_b = 0, data = Some [0::nat, 0]\<rparr> \<noteq> 0
   \<and> DequeueBuffer \<lparr>capacity = 2, slotsize = 8, start = 1, size_b = 0, data = Some [0::nat, 0]\<rparr>
     = Inr (\<lparr>capacity = 2, slotsize = 8, start = 0, size_b = - 1, data = Some [0, 0]\<rparr>, Some 1)
   \<and> capacity \<lparr>capacity = 2, slotsize = 1, start = 0, size_b = 0, data = Some [0, 7 :: 8 word]\<rparr> \<noteq> 0
   \<and> capacity \<lparr>capacity = 2, slotsize = 2, start = 0, size_b = 1,
                 data = Some [10, 0, 20, 0 :: 8 word]\<rparr> \<noteq> 0
   \<and> DequeueBufferIntoBuffer_bytes
       \<lparr>capacity = 2, slotsize = 1, start = 0, size_b = 0, data = Some [0, 7]\<rparr>
       \<lparr>capacity = 2, slotsize = 2, start = 0, size_b = 1, data = Some [10, 0, 20, 0]\<rparr>
     = Inr (\<lparr>capacity = 2, slotsize = 1, start = 0, size_b = 1, data = Some [10, 0]\<rparr>,
            \<lparr>capacity = 2, slotsize = 2, start = 1, size_b = 0, data = Some [10, 0, 20, 0]\<rparr>,
            Some 0)"
proof -
  let ?b = "\<lparr>capacity = 2, slotsize = 8, start = 1, size_b = 0, data = Some [0::nat, 0]\<rparr>"
  let ?dst = "\<lparr>capacity = 2, slotsize = 1, start = 0, size_b = 0, data = Some [0, 7 :: 8 word]\<rparr>"
  let ?src = "\<lparr>capacity = 2, slotsize = 2, start = 0, size_b = 1,
               data = Some [10, 0, 20, 0 :: 8 word]\<rparr>"
  have c: "capacity ?b \<noteq> 0" "capacity ?dst \<noteq> 0" "capacity ?src \<noteq> 0" by simp_all
  note t = C7_ring_buffer_unchecked [OF c]
  have d: "DequeueBuffer ?b
     = Inr (\<lparr>capacity = 2, slotsize = 8, start = 0, size_b = - 1, data = Some [0, 0]\<rparr>, Some 1)"
    using t [THEN conjunct1] by (simp add: signed_modulo_int_def)
  have h: "data ?dst = Some [0, 7] \<and> data ?src = Some [10, 0, 20, 0] \<and> 0 \<le> size_b ?dst
         \<and> 0 = to_int32 ((start ?dst + size_b ?dst) smod capacity ?dst * slotsize ?dst)
         \<and> 0 = to_int32 (start ?src smod capacity ?src * slotsize ?src)
         \<and> 2 = slotsize ?src \<and> (0::int) < 2 \<and> (2::int) < 2 ^ 31
         \<and> (0::int) \<le> 0 \<and> 0 + 2 \<le> int (length [0, 7 :: 8 word])
         \<and> (0::int) \<le> 0 \<and> 0 + 2 \<le> int (length [10, 0, 20, 0 :: 8 word])"
    by (simp add: to_int32_def signed_modulo_int_def)
  have m: "DequeueBufferIntoBuffer_bytes ?dst ?src
     = Inr (\<lparr>capacity = 2, slotsize = 1, start = 0, size_b = 1, data = Some [10, 0]\<rparr>,
            \<lparr>capacity = 2, slotsize = 2, start = 1, size_b = 0, data = Some [10, 0, 20, 0]\<rparr>,
            Some 0)"
    using t [THEN conjunct2, THEN conjunct2, THEN conjunct2, rule_format, OF h]
    by (simp add: signed_modulo_int_def)
  from c d m show ?thesis by simp
qed

subsection \<open>Byte source\<close>

text \<open>
  C8 (as stated, refuted): a seek with \<open>whence = SEEK_SET\<close> to offset 5 moves the cursor
  to 5 and returns 0, not the new cursor position.
\<close>

theorem C8_seek_counterexample:
  "snd (SeekStream (zero_movie\<lparr>lumpdata := [1, 2, 3, 4, 5, 6, 7, 8], lumpsize := 8\<rparr>) 5 SEEK_SET) = 0
   \<and> lumpposition
        (fst (SeekStream (zero_movie\<lparr>lumpdata := [1, 2, 3, 4, 5, 6, 7, 8], lumpsize := 8\<rparr>) 5 SEEK_SET)) = 5"
  by (simp add: SeekStream_def SEEK_SET_def SEEK_CUR_def SEEK_END_def AVSEEK_SIZE_def zero_movie_def)

text \<open>
  C8 (amended): with the cursor inside the lump, \<open>ReadStream\<close> copies exactly
  \<open>min n remaining\<close> bytes from the cursor on, advances the cursor by that amount and
  returns it; \<open>SeekStream\<close> with \<open>whence = AVSEEK_SIZE\<close> returns the lump length without
  moving the cursor, and with \<open>SEEK_SET\<close>, \<open>SEEK_CUR\<close>, \<open>SEEK_END\<close> it sets the cursor
  to the absolute, cursor-relative, end-relative offset and returns 0.
\<close>

theorem C8_byte_source:
  assumes "lumpsize m = int (length (lumpdata m))" and "lumpsize m < 2 ^ 63"
    and "0 \<le> lumpposition m" and "lumpposition m \<le> lumpsize m"
    and "0 \<le> n" and "n < 2 ^ 31" and "n \<le> int (length buf)"
  shows "ReadStream m buf n =
           Inr (m\<lparr>lumpposition := lumpposition m + min n (lumpsize m - lumpposition m)\<rparr>,
                take (nat (min n (lumpsize m - lumpposition m)))
                  (drop (nat (lumpposition m)) (lumpdata m))
                  @ drop (nat (min n (lumpsize m - lumpposition m))) buf,
                min n (lumpsize m - lumpposition m))
       \<and> SeekStream m off SEEK_SET = (m\<lparr>lumpposition := off\<rparr>, 0)
       \<and> SeekStream m off SEEK_CUR = (m\<lparr>lumpposition := off + lumpposition m\<rparr>, 0)
       \<and> SeekStream m off SEEK_END = (m\<lparr>lumpposition := off + lumpsize m\<rparr>, 0)
       \<and> SeekStream m off AVSEEK_SIZE = (m, lumpsize m)"
proof -
  let ?r = "lumpsize m - lumpposition m"
  let ?k = "min n ?r"
  have r: "0 \<le> ?r" "?r < 2 ^ 64" using assms by simp_all
  have k: "0 \<le> ?k" "?k < 2 ^ 31" "?k \<le> n" "?k \<le> ?r" using assms by simp_all
  have "to_size_t n = n" using assms by (simp add: to_size_t_id)
  moreover have "to_size_t ?r = ?r" using r by (rule to_size_t_id)
  moreover have "to_int32 ?k = ?k" using k by (simp add: to_int32_id)
  moreover have "to_size_t ?k = ?k" using k by (intro to_size_t_id) simp_all
  moreover have "lumpposition m + ?k \<le> int (length (lumpdata m))" "?k \<le> int (length buf)"
    using assms by (simp_all add: min_def)
  ultimately have "ReadStream m buf n =
           Inr (m\<lparr>lumpposition := lumpposition m + ?k\<rparr>,
                take (nat ?k) (drop (nat (lumpposition m)) (lumpdata m)) @ drop (nat ?k) buf, ?k)"
    using assms k unfolding ReadStream_def Let_def by simp
  then show ?thesis
    by (simp add: SeekStream_def SEEK_SET_def SEEK_CUR_def SEEK_END_def AVSEEK_SIZE_def)
qed

theorem C8_byte_source_witness:
  "ReadStream (zero_movie\<lparr>lumpdata := [1, 2, 3, 4, 5, 6, 7, 8], lumpsize := 8, lumpposition := 5\<rparr>)
      [0, 0, 0, 0, 0] 4
     = Inr (zero_movie\<lparr>lumpdata := [1, 2, 3, 4, 5, 6, 7, 8], lumpsize := 8, lumpposition := 8\<rparr>,
            [6, 7, 8, 0, 0], 3)
   \<and> SeekStream (zero_movie\<lparr>lumpdata := [1, 2, 3, 4, 5, 6, 7, 8], lumpsize := 8, lumpposition := 5\<rparr>)
        (- 2) SEEK_END
     = (zero_movie\<lparr>lumpdata := [1, 2, 3, 4, 5, 6, 7, 8], lumpsize := 8, lumpposition := 6\<rparr>, 0)"
  using C8_byte_source
    [of "zero_movie\<lparr>lumpdata := [1, 2, 3, 4, 5, 6, 7, 8], lumpsize := 8, lumpposition := 5\<rparr>"
        4 "[0, 0, 0, 0, 0]" "- 2"]
  by simp

subsection \<open>Capacity of the audio buffer\<close>

lemma example_audio_init:
  "InitialiseAudioBuffer example_audio_stream example_audio_worker 32 (\<lambda>i. (1, nat i + 100))
   = Inr (example_audio_stream\<lparr>numplanes := 1,
            buffer := \<lparr>capacity = 2, slotsize = 32, start = 0, size_b = 0,
                       data = Some [zero_audioframe, zero_audioframe]\<rparr>\<rparr>,
          example_audio_worker\<lparr>audiostream_w := (audiostream_w example_audio_worker)
            \<lparr>framequeue := \<lparr>capacity = 2, slotsize = 32, start = 0, size_b = 0,
                       data = Some [zero_audioframe, zero_audioframe]\<rparr>,
             framepool := \<lparr>capacity = 2, slotsize = 32, start = 0, size_b = 2,
                       data = Some [zero_audioframe\<lparr>samples0 := 100\<rparr>,
                                    zero_audioframe\<lparr>samples0 := 101\<rparr>]\<rparr>\<rparr>\<rparr>)"
  by (simp add: InitialiseAudioBuffer_def example_audio_stream_def example_audio_worker_def
      zero_stream_def zero_worker_def zero_workerstream_def zero_frame_def S16_is_planar_def
      GetSamplesPerFrame_def SAMPLE_RATE_def audio_buffer_capacity_def STREAM_BUFFER_TIME_def
      to_int32_def InitialiseBuffer_def calloc_def CloneBuffer_def seq_def Let_def
      InitialiseAudioFrames.simps EnqueueBuffer_def GetBufferSlot_def load_slot_def
      store_slot_def signed_modulo_int_def signed_divide_int_def numeral_2_eq_2 zero_audioframe_def)


text \<open>
  C9 (as stated, refuted): the formula does not give the capacity for every positive rate.
  For \<open>InitialiseAudioBuffer\<close> at a sample rate of \<open>2 ^ 30 + 44100\<close> and frames of
  \<open>2 ^ 31 - 1\<close> samples, \<open>samples_per_frame\<close> is 88197, the product \<open>4 * sample_rate\<close>
  wraps to 176400, and the three buffers get the capacity 2, where
  \<open>STREAM_BUFFER_TIME * sample_rate / samples_per_frame / 1000\<close> is 48699.
\<close>

theorem C9_rate_overflow_counterexample:
  "InitialiseAudioBuffer example_audio_stream
     (example_audio_worker
        \<lparr>audiostream_w := (audiostream_w example_audio_worker)
           \<lparr>codeccontext := Some \<lparr>width = 0, height = 0, sample_rate = 1073785924, channels = 2\<rparr>\<rparr>,
         frame := (frame example_audio_worker)\<lparr>nb_samples := 2147483647\<rparr>\<rparr>)
     32 (\<lambda>i. (1, nat i + 100))
   = Inr (example_audio_stream\<lparr>numplanes := 1,
            buffer := \<lparr>capacity = 2, slotsize = 32, start = 0, size_b = 0,
                       data = Some [zero_audioframe, zero_audioframe]\<rparr>\<rparr>,
          example_audio_worker
            \<lparr>audiostream_w := (audiostream_w example_audio_worker)
               \<lparr>codeccontext := Some \<lparr>width = 0, height = 0, sample_rate = 1073785924, channels = 2\<rparr>,
                framequeue := \<lparr>capacity = 2, slotsize = 32, start = 0, size_b = 0,
                       data = Some [zero_audioframe, zero_audioframe]\<rparr>,
                framepool := \<lparr>capacity = 2, slotsize = 32, start = 0, size_b = 2,
                       data = Some [zero_audioframe\<lparr>samples0 := 100\<rparr>,
                                    zero_audioframe\<lparr>samples0 := 101\<rparr>]\<rparr>\<rparr>,
             frame := (frame example_audio_worker)\<lparr>nb_samples := 2147483647\<rparr>\<rparr>)
   \<and> GetSamplesPerFrame 2147483647 1073785924 = 88197
   \<and> audio_buffer_capacity 1073785924 (GetSamplesPerFrame 2147483647 1073785924) = 2
   \<and> STREAM_BUFFER_TIME * 1073785924 sdiv (2147483647 * SAMPLE_RATE sdiv 1073785924 + 1) sdiv 1000
       = 48699"
  by (simp add: InitialiseAudioBuffer_def example_audio_stream_def example_audio_worker_def
      zero_stream_def zero_worker_def zero_workerstream_def zero_frame_def S16_is_planar_def
      GetSamplesPerFrame_def SAMPLE_RATE_def audio_buffer_capacity_def STREAM_BUFFER_TIME_def
      to_int32_def InitialiseBuffer_def calloc_def CloneBuffer_def seq_def Let_def
      InitialiseAudioFrames.simps EnqueueBuffer_def GetBufferSlot_def load_slot_def
      store_slot_def signed_modulo_int_def signed_divide_int_def numeral_2_eq_2 zero_audioframe_def)

text \<open>
  C9 (amended), for rates below \<open>2 ^ 29\<close>, where \<open>4 * sample_rate\<close> is an \<open>int\<close>: for all positive
  \<open>in_samples\<close> and all positive \<open>in_rate\<close> below \<open>2 ^ 29\<close>, the capacity computed by
  \<open>InitialiseAudioBuffer\<close> is
  \<open>STREAM_BUFFER_TIME * sample_rate / samples_per_frame / 1000\<close>, divisions taken from left
  to right, with \<open>samples_per_frame = in_samples * SAMPLE_RATE / in_rate + 1\<close>; and it is the
  capacity of the consumer buffer, the frame queue and the frame pool that
  \<open>InitialiseAudioBuffer\<close> leaves.
\<close>

theorem C9_audio_buffer_capacity:
  assumes "0 < in_samples" and "0 < in_rate" and "in_rate < 2 ^ 29"
  shows "audio_buffer_capacity in_rate (GetSamplesPerFrame in_samples in_rate)
           = STREAM_BUFFER_TIME * in_rate sdiv (in_samples * SAMPLE_RATE sdiv in_rate + 1) sdiv 1000
       \<and> (stream st \<noteq> None
            \<longrightarrow> codeccontext (audiostream_w worker) = Some ctx
            \<longrightarrow> sample_rate ctx = in_rate
            \<longrightarrow> nb_samples (frame worker) = in_samples
            \<longrightarrow> InitialiseAudioBuffer st worker slot alloc = Inr (st', worker')
            \<longrightarrow> capacity (buffer st')
                  = STREAM_BUFFER_TIME * in_rate sdiv (in_samples * SAMPLE_RATE sdiv in_rate + 1) sdiv 1000
              \<and> capacity (framequeue (audiostream_w worker')) = capacity (buffer st')
              \<and> capacity (framepool (audiostream_w worker')) = capacity (buffer st'))"
proof (intro conjI impI)
  let ?spf = "GetSamplesPerFrame in_samples in_rate"
  let ?c = "audio_buffer_capacity in_rate ?spf"
  note small = assms(3)
  show f: "?c = STREAM_BUFFER_TIME * in_rate sdiv (in_samples * SAMPLE_RATE sdiv in_rate + 1) sdiv 1000"
    by (rule audio_capacity_formula [OF assms])
  assume st: "stream st \<noteq> None"
    and ctx: "codeccontext (audiostream_w worker) = Some ctx" "sample_rate ctx = in_rate"
    and fr: "nb_samples (frame worker) = in_samples"
    and run: "InitialiseAudioBuffer st worker slot alloc = Inr (st', worker')"
  have spf: "0 < ?spf"
    using assms by (simp add: GetSamplesPerFrame_def SAMPLE_RATE_def sdiv_nonneg_pos
        pos_imp_zdiv_nonneg_iff add_pos_nonneg)
  have w: "to_int32 (4 * in_rate) = 4 * in_rate"
    using assms by (simp add: to_int32_def)
  have c0: "0 \<le> ?c"
    using assms spf w by (simp add: audio_buffer_capacity_def STREAM_BUFFER_TIME_def
        sdiv_nonneg_pos pos_imp_zdiv_nonneg_iff)
  have "?c \<le> 4 * in_rate"
    using assms spf w
    by (simp add: audio_buffer_capacity_def STREAM_BUFFER_TIME_def sdiv_nonneg_pos)
       (metis div_by_1 int_one_le_iff_zero_less mult_nonneg_nonneg zdiv_mono2 zero_le_numeral
          less_imp_le zero_less_one)
  then have c1: "?c < 2 ^ 31" using small by simp
  from run st ctx fr spf assms obtain b q pool pool' where
    b: "InitialiseBuffer (to_int32 ?c) slot zero_audioframe = Inr b" and
    q: "CloneBuffer b zero_audioframe = Inr q" and
    p: "CloneBuffer b zero_audioframe = Inr pool" and
    p': "InitialiseAudioFrames alloc 0 pool = Inr pool'" and
    res: "st' = st\<lparr>numplanes := (if S16_is_planar then channels ctx else 1), buffer := b\<rparr>"
         "worker' = worker\<lparr>audiostream_w := (audiostream_w worker)\<lparr>framequeue := q, framepool := pool'\<rparr>\<rparr>"
    by (auto simp: InitialiseAudioBuffer_def Let_def seq_def split: sum.splits if_splits)
  have cb: "capacity b = ?c"
    using InitialiseBuffer_capacity [OF b] to_int32_id [OF c0 c1] by simp
  show "capacity (buffer st')
      = STREAM_BUFFER_TIME * in_rate sdiv (in_samples * SAMPLE_RATE sdiv in_rate + 1) sdiv 1000"
    using cb f res by simp
  show "capacity (framequeue (audiostream_w worker')) = capacity (buffer st')"
    using CloneBuffer_capacity [OF q] res by simp
  show "capacity (framepool (audiostream_w worker')) = capacity (buffer st')"
    using CloneBuffer_capacity [OF p] InitialiseAudioFrames_capacity [OF p'] res by simp
qed


theorem C9_audio_buffer_capacity_witness:
  "(0::int) < 2177 \<and> (0::int) < 8000 \<and> (8000::int) < 2 ^ 29
   \<and> audio_buffer_capacity 8000 (GetSamplesPerFrame 2177 8000) = 2
   \<and> (\<exists>st' worker'.
         InitialiseAudioBuffer example_audio_stream example_audio_worker 32 (\<lambda>i. (1, nat i + 100))
           = Inr (st', worker')
         \<and> capacity (buffer st') = 2
         \<and> capacity (framequeue (audiostream_w worker')) = 2
         \<and> capacity (framepool (audiostream_w worker')) = 2)"
proof -
  have v: "STREAM_BUFFER_TIME * 8000 sdiv (2177 * SAMPLE_RATE sdiv 8000 + 1) sdiv 1000 = 2"
    by (simp add: STREAM_BUFFER_TIME_def SAMPLE_RATE_def signed_divide_int_def)
  have p: "(0::int) < 2177" "(0::int) < 8000" "(8000::int) < 2 ^ 29" by simp_all
  have s: "stream example_audio_stream \<noteq> None"
    by (simp add: example_audio_stream_def zero_stream_def)
  have c: "codeccontext (audiostream_w example_audio_worker)
              = Some \<lparr>width = 0, height = 0, sample_rate = 8000, channels = 2\<rparr>"
    by (simp add: example_audio_worker_def zero_worker_def zero_workerstream_def)
  have n: "nb_samples (frame example_audio_worker) = 2177"
    by (simp add: example_audio_worker_def zero_worker_def zero_frame_def)
  have r: "sample_rate \<lparr>width = 0, height = 0, sample_rate = 8000, channels = 2\<rparr> = 8000"
    by simp
  obtain st' worker' where i:
    "InitialiseAudioBuffer example_audio_stream example_audio_worker 32 (\<lambda>i. (1, nat i + 100))
       = Inr (st', worker')"
    by (rule that [OF example_audio_init])
  note t = C9_audio_buffer_capacity [OF p(1) p(2) p(3), unfolded v]
  have a: "audio_buffer_capacity 8000 (GetSamplesPerFrame 2177 8000) = 2"
    by (rule t [THEN conjunct1])
  have "capacity (buffer st') = 2
      \<and> capacity (framequeue (audiostream_w worker')) = capacity (buffer st')
      \<and> capacity (framepool (audiostream_w worker')) = capacity (buffer st')"
    by (rule t [THEN conjunct2, rule_format, OF s c r n i])
  then have "capacity (buffer st') = 2 \<and> capacity (framequeue (audiostream_w worker')) = 2
      \<and> capacity (framepool (audiostream_w worker')) = 2"
    by simp
  with i have "\<exists>st' worker'.
         InitialiseAudioBuffer example_audio_stream example_audio_worker 32 (\<lambda>i. (1, nat i + 100))
           = Inr (st', worker')
         \<and> capacity (buffer st') = 2
         \<and> capacity (framequeue (audiostream_w worker')) = 2
         \<and> capacity (framepool (audiostream_w worker')) = 2"
    by blast
  with p a show ?thesis by blast
qed


subsection \<open>RGBA to patch conversion\<close>

lemma upt_nat_step: "0 \<le> x \<Longrightarrow> x < w \<Longrightarrow> [nat x..<nat w] = nat x # [nat (x + 1)..<nat w]"
proof -
  assume a: "0 \<le> x" "x < w"
  then have "nat x < nat w" by simp
  then have "[nat x..<nat w] = nat x # [Suc (nat x)..<nat w]" by (rule upt_conv_Cons)
  moreover have "Suc (nat x) = nat (x + 1)" using a by simp
  ultimately show ?thesis by simp
qed

lemma patch_offsets_eq:
  "0 \<le> x \<Longrightarrow>
   patch_offsets w b x dst =
     dst @ concat (map (\<lambda>k. le32 (word_of_int (w * 4 + int k * b + 3))) [nat x..<nat w])"
proof (induction w b x dst rule: patch_offsets.induct)
  case (1 w b x dst)
  show ?case
  proof (cases "x < w")
    case True
    have x1: "0 \<le> x + 1" using "1.prems" by simp
    have "patch_offsets w b x dst =
            patch_offsets w b (x + 1) (WRITEUINT32 dst (w * 4 + x * b + (POST_BASE_BYTES - 1)))"
      using True by (subst patch_offsets.simps) simp
    also have "\<dots> = WRITEUINT32 dst (w * 4 + x * b + (POST_BASE_BYTES - 1))
        @ concat (map (\<lambda>k. le32 (word_of_int (w * 4 + int k * b + 3))) [nat (x + 1)..<nat w])"
      by (rule "1.IH" [OF True x1])
    also have "\<dots> = dst @ concat (map (\<lambda>k. le32 (word_of_int (w * 4 + int k * b + 3)))
                               (nat x # [nat (x + 1)..<nat w]))"
      using "1.prems" by (simp add: WRITEUINT32_def POST_BASE_BYTES_def)
    finally show ?thesis
      by (simp only: upt_nat_step [OF "1.prems" True])
  next
    case False
    then have "[nat x..<nat w] = []" by simp
    then show ?thesis using False by (subst patch_offsets.simps) simp
  qed
qed


lemma patch_pixels_eq:
  "0 \<le> y \<Longrightarrow> y \<le> postend \<Longrightarrow>
   (\<And>k. y \<le> k \<Longrightarrow> k < postend \<Longrightarrow>
      0 \<le> base + k * stride \<and> base + k * stride + 2 < int (length src)) \<Longrightarrow>
   patch_pixels lut c src stride postend y (base + y * stride) dst =
     Inr (postend, base + postend * stride,
          dst @ map (\<lambda>k. pixel_at lut c src (base + int k * stride)) [nat y..<nat postend])"
proof (induction lut c src stride postend y "base + y * stride" dst arbitrary: base
    rule: patch_pixels.induct)
  case (1 lut c src stride postend y dst)
  let ?p = "base + y * stride"
  let ?px = "uint (lut (c (src ! nat ?p) (src ! nat (?p + 1)) (src ! nat (?p + 2))))"
  show ?case
  proof (cases "y < postend")
    case True
    from "1.prems"(3) [of y] True
    have rng: "0 \<le> ?p" "?p + 2 < int (length src)" by simp_all
    then have rd: "read_byte src ?p = Some (src ! nat ?p)"
      "read_byte src (?p + 1) = Some (src ! nat (?p + 1))"
      "read_byte src (?p + 2) = Some (src ! nat (?p + 2))"
      by (simp_all add: read_byte_def)
    have nxt: "?p + stride = base + (y + 1) * stride"
      by (simp add: algebra_simps)
    have y1: "0 \<le> y + 1" "y + 1 \<le> postend" using "1.prems" True by simp_all
    have r: "\<And>k. y + 1 \<le> k \<Longrightarrow> k < postend \<Longrightarrow>
      0 \<le> base + k * stride \<and> base + k * stride + 2 < int (length src)"
      using "1.prems"(3) by simp
    have "patch_pixels lut c src stride postend y ?p dst =
            patch_pixels lut c src stride postend (y + 1) (?p + stride) (WRITEUINT8 dst ?px)"
      using True by (subst patch_pixels.simps) (simp add: rd)
    also have "\<dots> = Inr (postend, base + postend * stride,
                  WRITEUINT8 dst ?px
                  @ map (\<lambda>k. pixel_at lut c src (base + int k * stride)) [nat (y + 1)..<nat postend])"
      unfolding nxt by (rule "1.hyps" [OF True rd nxt y1 r])
    also have "\<dots> = Inr (postend, base + postend * stride,
                  dst @ map (\<lambda>k. pixel_at lut c src (base + int k * stride))
                          (nat y # [nat (y + 1)..<nat postend]))"
      using "1.prems"(1) by (simp add: WRITEUINT8_def pixel_at_def)
    finally show ?thesis
      by (simp only: upt_nat_step [OF "1.prems"(1) True])
  next
    case False
    with "1.prems" have e: "y = postend" by simp
    then have "[nat y..<nat postend] = []" by simp
    then show ?thesis using e by (subst patch_pixels.simps) simp
  qed
qed


lemma take_map_upt: "take n (map f [i..<j]) = map f [i..<min (i + n) j]"
proof -
  have "take n [i..<j] = [i..<min (i + n) j]"
  proof (cases "i + n \<le> j")
    case True
    then show ?thesis by (simp add: take_upt min_def)
  next
    case False
    then show ?thesis by (simp add: min_def)
  qed
  then show ?thesis by (simp add: take_map)
qed

lemma drop_map_upt: "drop n (map f [i..<j]) = map f [i + n..<j]"
  by (simp add: drop_map drop_upt)

lemma patch_posts_eq:
  "0 \<le> y \<Longrightarrow> y \<le> h \<Longrightarrow>
   (\<And>k. y \<le> k \<Longrightarrow> k < h \<Longrightarrow>
      0 \<le> base + k * stride \<and> base + k * stride + 2 < int (length src)) \<Longrightarrow>
   patch_posts lut c src stride h y (base + y * stride) dst =
     Inr (dst @ spec_posts (y = 0)
                  (map (\<lambda>k. pixel_at lut c src (base + int k * stride)) [nat y..<nat h]))"
proof (induction lut c src stride h y "base + y * stride" dst arbitrary: base
    rule: patch_posts.induct)
  case (1 lut c src stride h y dst)
  let ?f = "\<lambda>k. pixel_at lut c src (base + int k * stride)"
  show ?case
  proof (cases "y < h")
    case True
    define postend where "postend = min (y + POST_MAX_HEIGHT) h"
    define dst3 where "dst3 = WRITEUINT8 (WRITEUINT8 (WRITEUINT8 dst
        (if y \<noteq> 0 then POST_MAX_HEIGHT else 0)) (postend - y)) 0"
    have pe: "y < postend" "postend \<le> h" "0 \<le> postend" "postend \<le> y + 254"
      using True "1.prems"(1) by (simp_all add: postend_def POST_MAX_HEIGHT_def)
    have r1: "\<And>k. y \<le> k \<Longrightarrow> k < postend \<Longrightarrow>
        0 \<le> base + k * stride \<and> base + k * stride + 2 < int (length src)"
      using "1.prems"(3) pe by simp
    have r2: "\<And>k. postend \<le> k \<Longrightarrow> k < h \<Longrightarrow>
        0 \<le> base + k * stride \<and> base + k * stride + 2 < int (length src)"
      using "1.prems"(3) pe by simp
    have pix: "patch_pixels lut c src stride postend y (base + y * stride) dst3 =
        Inr (postend, base + postend * stride, dst3 @ map ?f [nat y..<nat postend])"
      using "1.prems"(1) pe(1) r1 by (intro patch_pixels_eq) simp_all
    have ih: "patch_posts lut c src stride h postend (base + postend * stride)
                (WRITEUINT8 (dst3 @ map ?f [nat y..<nat postend]) 0)
            = Inr (WRITEUINT8 (dst3 @ map ?f [nat y..<nat postend]) 0
                   @ spec_posts (postend = 0) (map ?f [nat postend..<nat h]))"
      by (rule "1.hyps" [OF True postend_def refl refl refl
            pix [unfolded dst3_def] refl refl pe(3) pe(2) r2, folded dst3_def])
    have step: "patch_posts lut c src stride h y (base + y * stride) dst =
        patch_posts lut c src stride h postend (base + postend * stride)
                (WRITEUINT8 (dst3 @ map ?f [nat y..<nat postend]) 0)"
      using True pix
      by (subst patch_posts.simps) (simp add: Let_def postend_def [symmetric] dst3_def)
    have ne: "map ?f [nat y..<nat h] \<noteq> []" using True "1.prems"(1) by simp
    have tk: "take 254 (map ?f [nat y..<nat h]) = map ?f [nat y..<nat postend]"
    proof -
      have "min (nat y + 254) (nat h) = nat postend"
        using "1.prems"(1) True unfolding postend_def POST_MAX_HEIGHT_def by arith
      then show ?thesis by (simp only: take_map_upt)
    qed
    have dr: "drop 254 (map ?f [nat y..<nat h]) = map ?f [nat postend..<nat h]"
    proof (cases "y + 254 \<le> h")
      case True
      then have "nat y + 254 = nat postend"
        using "1.prems"(1) unfolding postend_def POST_MAX_HEIGHT_def by arith
      then show ?thesis by (simp only: drop_map_upt)
    next
      case False
      then have "postend = h" by (simp add: postend_def POST_MAX_HEIGHT_def)
      moreover have "nat h \<le> nat y + 254" using False by simp
      ultimately show ?thesis by (simp add: drop_map_upt)
    qed
    have len: "(of_nat (length (map ?f [nat y..<nat postend])) :: 8 word) = word_of_int (postend - y)"
    proof -
      have "length (map ?f [nat y..<nat postend]) = nat (postend - y)"
        using pe "1.prems"(1) by simp
      moreover have "(of_nat (nat (postend - y)) :: 8 word) = word_of_int (postend - y)"
        using pe by simp
      ultimately show ?thesis by simp
    qed
    have sp: "spec_posts (y = 0) (map ?f [nat y..<nat h]) =
        spec_post (y = 0) (map ?f [nat y..<nat postend])
        @ spec_posts False (map ?f [nat postend..<nat h])"
      using ne by (subst spec_posts.simps) (simp only: tk dr if_False)
    have p0: "(postend = 0) = False" using pe "1.prems"(1) by simp
    have w: "WRITEUINT8 (dst3 @ map ?f [nat y..<nat postend]) 0
        = dst @ spec_post (y = 0) (map ?f [nat y..<nat postend])"
      unfolding spec_post_def len
      by (simp add: dst3_def WRITEUINT8_def POST_MAX_HEIGHT_def)
    have "patch_posts lut c src stride h y (base + y * stride) dst =
        Inr (WRITEUINT8 (dst3 @ map ?f [nat y..<nat postend]) 0
             @ spec_posts False (map ?f [nat postend..<nat h]))"
      by (simp only: step ih p0)
    also have "\<dots> = Inr (dst @ spec_posts (y = 0) (map ?f [nat y..<nat h]))"
      by (simp only: w sp append_assoc)
    finally show ?thesis .
  next
    case False
    with "1.prems" have e: "y = h" by simp
    then have "[nat y..<nat h] = []" by simp
    moreover have "spec_posts (y = 0) [] = []" by (subst spec_posts.simps) simp
    ultimately show ?thesis using e by (subst patch_posts.simps) simp
  qed
qed


lemma patch_columns_eq:
  "0 \<le> x \<Longrightarrow> 0 \<le> h \<Longrightarrow> 0 \<le> w \<Longrightarrow> 4 * w * h \<le> int (length src) \<Longrightarrow>
   patch_columns lut c src w h x dst =
     Inr (dst @ concat (map (\<lambda>k. spec_posts True
                 (map (\<lambda>y. pixel_at lut c src (4 * int k + int y * (4 * w))) [0..<nat h]) @ [255])
               [nat x..<nat w]))"
proof (induction lut c src w h x dst rule: patch_columns.induct)
  case (1 lut c src w h x dst)
  let ?col = "\<lambda>k. spec_posts True
                 (map (\<lambda>y. pixel_at lut c src (4 * int k + int y * (4 * w))) [0..<nat h]) @ [255]"
  show ?case
  proof (cases "x < w")
    case True
    have rng: "0 \<le> 4 * x + k * (4 * w) \<and> 4 * x + k * (4 * w) + 2 < int (length src)"
      if "0 \<le> k" "k < h" for k
    proof -
      have "k * (4 * w) \<le> (h - 1) * (4 * w)"
        using that "1.prems"(3) by (intro mult_right_mono) simp_all
      moreover have "0 \<le> k * (4 * w)" using that "1.prems"(3) by simp
      moreover have "(h - 1) * (4 * w) = 4 * w * h - 4 * w" by (simp add: algebra_simps)
      ultimately show ?thesis using True "1.prems" by linarith
    qed
    have posts: "patch_posts lut c src (4 * w) h 0 (4 * x) dst =
        Inr (dst @ spec_posts True
               (map (\<lambda>y. pixel_at lut c src (4 * x + int y * (4 * w))) [0..<nat h]))"
      using patch_posts_eq [where y = 0 and base = "4 * x" and h = h and stride = "4 * w"
          and src = src and lut = lut and c = c and dst = dst] "1.prems"(2) rng
      by simp
    have x1: "0 \<le> x + 1" using "1.prems"(1) by simp
    have "patch_columns lut c src w h x dst =
        patch_columns lut c src w h (x + 1)
          (WRITEUINT8 (dst @ spec_posts True
               (map (\<lambda>y. pixel_at lut c src (4 * x + int y * (4 * w))) [0..<nat h])) 255)"
      using True by (subst patch_columns.simps) (simp add: posts)
    also have "\<dots> = Inr (WRITEUINT8 (dst @ spec_posts True
               (map (\<lambda>y. pixel_at lut c src (4 * x + int y * (4 * w))) [0..<nat h])) 255
             @ concat (map ?col [nat (x + 1)..<nat w]))"
      by (rule "1.IH" [OF True posts x1 "1.prems"(2) "1.prems"(3) "1.prems"(4)])
    also have "\<dots> = Inr (dst @ concat (map ?col (nat x # [nat (x + 1)..<nat w])))"
      using "1.prems"(1) by (simp add: WRITEUINT8_def)
    finally show ?thesis
      by (simp only: upt_nat_step [OF "1.prems"(1) True])
  next
    case False
    then have "[nat x..<nat w] = []" by simp
    then show ?thesis using False by (subst patch_columns.simps) simp
  qed
qed

lemma ceiling_254: "\<lceil>real h / 254\<rceil> = (int h + 253) div 254"
proof -
  have "\<lceil>real h / 254\<rceil> = \<lceil>(of_int (int h) :: real) / of_int 254\<rceil>" by simp
  also have "\<dots> = - (- int h div 254)" by (rule ceiling_divide_eq_div)
  finally have c: "\<lceil>real h / 254\<rceil> = - (- int h div 254)" .
  have a: "254 * ((int h + 253) div 254) \<le> int h + 253"
    "int h + 253 < 254 * ((int h + 253) div 254) + 254"
    by (rule int_div_bounds, simp)+
  have b: "254 * (- int h div 254) \<le> - int h" "- int h < 254 * (- int h div 254) + 254"
    by (rule int_div_bounds, simp)+
  from a b have "- (- int h div 254) = (int h + 253) div 254" by linarith
  with c show ?thesis by simp
qed

lemma GetBytesPerPatchColumn_spec:
  "codeccontext (videostream_w worker) = Some ctx \<Longrightarrow> height ctx = int h \<Longrightarrow>
   GetBytesPerPatchColumn worker = Inr (int (spec_bytes_per_column h))"
proof -
  assume a: "codeccontext (videostream_w worker) = Some ctx" "height ctx = int h"
  have n: "0 \<le> (int h + 253) div 254" by (simp add: pos_imp_zdiv_nonneg_iff)
  have "(int h + POST_MAX_HEIGHT - 1) sdiv POST_MAX_HEIGHT = (int h + 253) div 254"
    by (simp add: POST_MAX_HEIGHT_def sdiv_nonneg_pos)
  then show ?thesis
    using a n
    by (simp add: GetBytesPerPatchColumn_def Let_def spec_bytes_per_column_def ceiling_254
        POST_BASE_BYTES_def)
qed

lemma pixel_at_spec:
  "pixel_at lut c src (4 * int x + int y * (4 * int w)) = spec_pixel lut c src w x y"
proof -
  have "nat (4 * int x + int y * (4 * int w)) = 4 * x + y * (4 * w)"
    "nat (4 * int x + int y * (4 * int w) + 1) = 4 * x + y * (4 * w) + 1"
    "nat (4 * int x + int y * (4 * int w) + 2) = 4 * x + y * (4 * w) + 2"
    by (simp_all add: nat_add_distrib nat_mult_distrib)
  then show ?thesis
    by (simp add: pixel_at_def spec_pixel_def Let_def)
qed

lemma ConvertRGBAToPatch_spec:
  assumes "frame_width (frame worker) = int w" and "frame_height (frame worker) = int h"
    and "codeccontext (videostream_w worker) = Some ctx" and "height ctx = int h"
    and "4 * w * h \<le> length src"
  shows "ConvertRGBAToPatch worker CLUTINDEX src
           = Inr (spec_patch (colorlut worker) CLUTINDEX src w h)"
proof -
  let ?B = "spec_bytes_per_column h"
  have len: "4 * int w * int h \<le> int (length src)"
    using assms(5) by (metis of_nat_le_iff of_nat_mult of_nat_numeral)
  have e: "(word_of_int (int w * 4 + int k * int ?B + 3) :: 32 word)
              = of_nat (w * 4 + k * ?B + 3)" for k
    by simp
  have "patch_offsets (int w) (int ?B) 0 [] =
      [] @ concat (map (\<lambda>k. le32 (word_of_int (int w * 4 + int k * int ?B + 3))) [nat 0..<nat (int w)])"
    by (rule patch_offsets_eq) simp
  then have off: "patch_offsets (int w) (int ?B) 0 [] =
      concat (map (\<lambda>k. le32 (of_nat (w * 4 + k * ?B + 3))) [0..<w])"
    by (simp only: e append_Nil nat_int nat_0)
  have "patch_columns (colorlut worker) CLUTINDEX src (int w) (int h) 0 dst =
      Inr (dst @ concat (map (\<lambda>k. spec_posts True
              (map (\<lambda>y. pixel_at (colorlut worker) CLUTINDEX src (4 * int k + int y * (4 * int w)))
                 [0..<nat (int h)]) @ [255]) [nat 0..<nat (int w)]))" for dst
    using len by (intro patch_columns_eq) simp_all
  then have cols: "patch_columns (colorlut worker) CLUTINDEX src (int w) (int h) 0 dst =
      Inr (dst @ concat (map (\<lambda>x. spec_posts True
              (map (spec_pixel (colorlut worker) CLUTINDEX src w x) [0..<h]) @ [255]) [0..<w]))"
    for dst
    by (simp only: pixel_at_spec nat_int nat_0)
  have "ConvertRGBAToPatch worker CLUTINDEX src =
      patch_columns (colorlut worker) CLUTINDEX src (int w) (int h) 0
        (patch_offsets (int w) (int ?B) 0 [])"
    unfolding ConvertRGBAToPatch_def Let_def assms(1,2)
      GetBytesPerPatchColumn_spec [OF assms(3,4)] seq_def
    by simp
  then show ?thesis
    by (simp only: cols off spec_patch_def)
qed

lemma le32_digits:
  fixes n :: nat
  assumes "n < 2 ^ 32"
  shows "n mod 256 + 256 * (n div 256 mod 256) + 65536 * (n div 65536 mod 256)
           + 16777216 * (n div 16777216 mod 256) = n"
proof -
  define d1 where "d1 = n div 256"
  define d2 where "d2 = d1 div 256"
  define d3 where "d3 = d2 div 256"
  have e1: "n = 256 * d1 + n mod 256" by (simp add: d1_def)
  have e2: "d1 = 256 * d2 + d1 mod 256" by (simp add: d2_def)
  have e3: "d2 = 256 * d3 + d2 mod 256" by (simp add: d3_def)
  have n2: "n div 65536 = d2"
    using div_mult2_eq [of n 256 256] by (simp add: d1_def d2_def)
  have n3: "n div 16777216 = d3"
    using div_mult2_eq [of n 65536 256] n2 by (simp add: d3_def)
  have "d3 < 256" using assms n3 by (simp add: less_mult_imp_div_less)
  then have m3: "d3 mod 256 = d3" by simp
  show ?thesis
    unfolding n2 n3 m3 d1_def [symmetric] using e1 e2 e3 by linarith
qed

lemma read_le32_le32: "read_le32 (le32 v) = unat v"
proof -
  have "unat v < 2 ^ 32" using unsigned_less [of v, where 'a = nat] by simp
  note d = le32_digits [OF this]
  show ?thesis
    apply (simp add: read_le32_def le32_def unsigned_ucast_eq unat_drop_bit_eq drop_bit_eq_div
        take_bit_eq_mod unat_div)
    apply (rule d)
    done
qed

lemma spec_posts_Nil: "spec_posts first [] = []"
  by (subst spec_posts.simps) simp

lemma spec_posts_one:
  "0 < length ps \<Longrightarrow> length ps \<le> 254 \<Longrightarrow> spec_posts first ps = spec_post first ps"
  by (subst spec_posts.simps) (auto simp: spec_posts_Nil)

lemma spec_posts_two:
  assumes "254 < length ps" and "length ps \<le> 508"
  shows "spec_posts first ps = spec_post first (take 254 ps) @ spec_post False (drop 254 ps)"
proof -
  have "ps \<noteq> []" using assms by auto
  moreover have "spec_posts False (drop 254 ps) = spec_post False (drop 254 ps)"
    using assms by (intro spec_posts_one) simp_all
  ultimately show ?thesis by (subst spec_posts.simps) simp
qed

text \<open>
  C1: for every RGBA image of width \<open>w\<close> and height \<open>h\<close> (the dimensions of the
  decoded frame, \<open>h\<close> being also the height of the codec context, and \<open>src\<close> holding the
  \<open>4 * w * h\<close> bytes of the image) and every palette table, the converter writes
  \<open>spec_patch\<close>: first \<open>w\<close> 4-byte little-endian column offsets, the one of column \<open>x\<close>
  being \<open>w * 4 + x * bytes_per_column + 3\<close> cut to 32 bits, with
  \<open>bytes_per_column = h + \<lceil>h / 254\<rceil> * 4 + 1\<close>; then, for each column, the posts of
  \<open>spec_posts\<close> (at most 254 pixels each, top delta 0 for the first and 254 for the others,
  each laid out as top delta, length, an unused byte, the pixels, an unused byte) and the
  terminator \<open>0xFF\<close>.  When the patch with 3 more bytes is smaller than \<open>2 ^ 32\<close> bytes,
  each offset reads back as the number itself.  A column of height 1 to 254 has exactly one
  post and a column of height 255 to 508 exactly two; the list of posts of an empty column
  is empty.
\<close>

theorem C1_patch_layout:
  assumes "frame_width (frame worker) = int w" and "frame_height (frame worker) = int h"
    and "codeccontext (videostream_w worker) = Some ctx" and "height ctx = int h"
    and "4 * w * h \<le> length src"
  shows "ConvertRGBAToPatch worker CLUTINDEX src
           = Inr (spec_patch (colorlut worker) CLUTINDEX src w h)
       \<and> (w * (4 + spec_bytes_per_column h) + 3 < 2 ^ 32 \<longrightarrow>
            (\<forall>x<w. read_le32 (le32 (of_nat (w * 4 + x * spec_bytes_per_column h + 3)))
                     = w * 4 + x * spec_bytes_per_column h + 3))
       \<and> (\<forall>ps. 0 < length ps \<and> length ps \<le> 254 \<longrightarrow> spec_posts True ps = spec_post True ps)
       \<and> (\<forall>ps. 254 < length ps \<and> length ps \<le> 508 \<longrightarrow>
             spec_posts True ps = spec_post True (take 254 ps) @ spec_post False (drop 254 ps))
       \<and> spec_posts True [] = []"
proof (intro conjI impI allI)
  show "ConvertRGBAToPatch worker CLUTINDEX src
           = Inr (spec_patch (colorlut worker) CLUTINDEX src w h)"
    by (rule ConvertRGBAToPatch_spec [OF assms])
next
  fix x
  let ?B = "spec_bytes_per_column h"
  assume sz: "w * (4 + ?B) + 3 < 2 ^ 32" and x: "x < w"
  have "x * ?B \<le> w * ?B" using x by (intro mult_right_mono) simp_all
  then have "w * 4 + x * ?B + 3 \<le> w * (4 + ?B) + 3" by (simp add: algebra_simps)
  then have "w * 4 + x * ?B + 3 < 2 ^ 32" using sz by linarith
  then have "unat (of_nat (w * 4 + x * ?B + 3) :: 32 word) = w * 4 + x * ?B + 3"
    by (subst unat_of_nat) simp
  then show "read_le32 (le32 (of_nat (w * 4 + x * ?B + 3))) = w * 4 + x * ?B + 3"
    by (simp only: read_le32_le32)
next
  fix ps :: "8 word list"
  assume "0 < length ps \<and> length ps \<le> 254"
  then show "spec_posts True ps = spec_post True ps" by (simp add: spec_posts_one)
next
  fix ps :: "8 word list"
  assume "254 < length ps \<and> length ps \<le> 508"
  then show "spec_posts True ps = spec_post True (take 254 ps) @ spec_post False (drop 254 ps)"
    by (simp add: spec_posts_two)
next
  show "spec_posts True [] = []" by (rule spec_posts_Nil)
qed

theorem C1_patch_layout_witness:
  "frame_width (frame (example_patch_worker 1 2)) = int 1
   \<and> frame_height (frame (example_patch_worker 1 2)) = int 2
   \<and> codeccontext (videostream_w (example_patch_worker 1 2))
       = Some \<lparr>width = 1, height = 2, sample_rate = 0, channels = 0\<rparr>
   \<and> 4 * 1 * 2 \<le> length example_rgba
   \<and> ConvertRGBAToPatch (example_patch_worker 1 2) example_CLUTINDEX example_rgba
       = Inr [7, 0, 0, 0, 0, 2, 0, 10, 40, 0, 255]"
proof -
  have a: "frame_width (frame (example_patch_worker 1 2)) = int 1"
    "frame_height (frame (example_patch_worker 1 2)) = int 2"
    "codeccontext (videostream_w (example_patch_worker 1 2))
       = Some \<lparr>width = 1, height = 2, sample_rate = 0, channels = 0\<rparr>"
    "height \<lparr>width = 1, height = 2, sample_rate = 0, channels = 0\<rparr> = int 2"
    "4 * 1 * 2 \<le> length example_rgba"
    by (simp_all add: example_patch_worker_def zero_worker_def zero_frame_def example_rgba_def)
  have b: "spec_bytes_per_column 2 = 7"
    by (simp add: spec_bytes_per_column_def ceiling_254 [of 2, simplified])
  have p: "spec_posts True [10, 40] = [0, 2, 0, 10, 40, 0]"
    by (simp add: spec_posts_one spec_post_def)
  have l: "le32 7 = [7, 0, 0, 0]" by (simp add: le32_def)
  have u: "[0..<2::nat] = [0, 1]" "[0..<1::nat] = [0]" by code_simp+
  have x: "spec_pixel (colorlut (example_patch_worker 1 2)) example_CLUTINDEX example_rgba
             (Suc 0) 0 0 = 10"
    "spec_pixel (colorlut (example_patch_worker 1 2)) example_CLUTINDEX example_rgba
             (Suc 0) 0 (Suc 0) = 40"
    by (simp_all add: spec_pixel_def example_CLUTINDEX_def example_rgba_def example_patch_worker_def)
  have "spec_patch (colorlut (example_patch_worker 1 2)) example_CLUTINDEX example_rgba 1 2
      = [7, 0, 0, 0, 0, 2, 0, 10, 40, 0, 255]"
    unfolding spec_patch_def u b by (simp add: l x p)
  with C1_patch_layout [OF a, of example_CLUTINDEX] a show ?thesis by simp
qed

subsection \<open>Well-formed circular buffers\<close>

lemma smod_nonneg_pos: "0 \<le> a \<Longrightarrow> 0 < b \<Longrightarrow> a smod b = a mod (b::int)"
  by (rule smod_mod_positive) simp_all

lemma GetBufferSlot_wf:
  "wf_buffer b \<Longrightarrow> 0 \<le> i \<Longrightarrow>
   GetBufferSlot b i = Inr (Some ((start b + i) mod capacity b))"
  by (simp add: GetBufferSlot_def wf_buffer_def smod_nonneg_pos)

lemma slot_in_range:
  "wf_buffer b \<Longrightarrow> data b = Some d \<Longrightarrow>
   0 \<le> (start b + i) mod capacity b \<and> (start b + i) mod capacity b < int (length d)"
  by (simp add: wf_buffer_def)

lemma load_slot_wf:
  "wf_buffer b \<Longrightarrow> 0 \<le> i \<Longrightarrow> i < size_b b \<Longrightarrow>
   load_slot b (Some ((start b + i) mod capacity b)) = Inr (content b ! nat i)"
  by (auto simp: load_slot_def content_def wf_buffer_def split: option.splits)

lemma length_content: "wf_buffer b \<Longrightarrow> length (content b) = nat (size_b b)"
  by (auto simp: content_def wf_buffer_def split: option.splits)

lemma content_empty: "wf_buffer b \<Longrightarrow> size_b b = 0 \<Longrightarrow> content b = []"
  by (auto simp: content_def wf_buffer_def split: option.splits)

lemma DequeueBuffer_wf:
  assumes "wf_buffer b" and "0 < size_b b"
  shows "DequeueBuffer b =
           Inr (b\<lparr>start := (start b + 1) mod capacity b, size_b := size_b b - 1\<rparr>, Some (start b))"
    and "wf_buffer (b\<lparr>start := (start b + 1) mod capacity b, size_b := size_b b - 1\<rparr>)"
    and "content (b\<lparr>start := (start b + 1) mod capacity b, size_b := size_b b - 1\<rparr>)
           = tl (content b)"
    and "load_slot (b\<lparr>start := (start b + 1) mod capacity b, size_b := size_b b - 1\<rparr>)
           (Some (start b)) = Inr (hd (content b))"
proof -
  from assms obtain d where d: "data b = Some d" "int (length d) = capacity b"
    by (auto simp: wf_buffer_def split: option.splits)
  have c: "0 < capacity b" "0 \<le> start b" "start b < capacity b" "size_b b \<le> capacity b"
    using assms by (simp_all add: wf_buffer_def)
  show "DequeueBuffer b =
           Inr (b\<lparr>start := (start b + 1) mod capacity b, size_b := size_b b - 1\<rparr>, Some (start b))"
    using c by (simp add: DequeueBuffer_def PeekBuffer_def GetBufferSlot_def seq_def
        smod_nonneg_pos)
  show "wf_buffer (b\<lparr>start := (start b + 1) mod capacity b, size_b := size_b b - 1\<rparr>)"
    using c d assms(2) by (simp add: wf_buffer_def)
  have n: "nat (size_b b) = Suc (nat (size_b b - 1))" using assms(2) by simp
  have sh: "((start b + 1) mod capacity b + int i) mod capacity b
          = (start b + int (Suc i)) mod capacity b" for i
    by (simp add: mod_simps algebra_simps)
  have "content b = d ! nat (start b) # map (\<lambda>i. d ! nat ((start b + int (Suc i)) mod capacity b))
                                           [0..<nat (size_b b - 1)]"
    unfolding content_def d option.case n upt_conv_Cons [OF zero_less_Suc]
    using c by (simp add: map_Suc_upt [symmetric] del: upt_Suc)
  then show "content (b\<lparr>start := (start b + 1) mod capacity b, size_b := size_b b - 1\<rparr>)
           = tl (content b)"
    and "load_slot (b\<lparr>start := (start b + 1) mod capacity b, size_b := size_b b - 1\<rparr>)
           (Some (start b)) = Inr (hd (content b))"
    using c d by (simp_all add: content_def sh load_slot_def)
qed

lemma mod_inj_range:
  fixes s c i j :: int
  assumes "0 < c" "0 \<le> i" "i < c" "0 \<le> j" "j < c" "(s + i) mod c = (s + j) mod c"
  shows "i = j"
proof (rule ccontr)
  assume "i \<noteq> j"
  then have nz: "i - j \<noteq> 0" by simp
  have "c dvd (s + i) - (s + j)" using assms(6) by (simp add: mod_eq_dvd_iff)
  then have "c dvd i - j" by simp
  with nz have "\<bar>c\<bar> \<le> \<bar>i - j\<bar>" by (rule dvd_imp_le_int)
  then show False using assms by linarith
qed

lemma EnqueueBuffer_wf:
  assumes "wf_buffer b" and "size_b b < capacity b"
  shows "EnqueueBuffer b =
           Inr (b\<lparr>size_b := size_b b + 1\<rparr>, Some ((start b + size_b b) mod capacity b))"
  using assms
  by (simp add: EnqueueBuffer_def Let_def GetBufferSlot_def seq_def wf_buffer_def smod_nonneg_pos)

lemma store_new_slot:
  assumes "wf_buffer b" and "size_b b < capacity b"
  shows "\<exists>b'. store_slot (b\<lparr>size_b := size_b b + 1\<rparr>)
                  (Some ((start b + size_b b) mod capacity b)) v = Inr b'
             \<and> wf_buffer b' \<and> content b' = content b @ [v]
             \<and> capacity b' = capacity b \<and> size_b b' = size_b b + 1
             \<and> slotsize b' = slotsize b \<and> start b' = start b"
proof -
  from assms obtain d where d: "data b = Some d" "int (length d) = capacity b"
    by (auto simp: wf_buffer_def split: option.splits)
  have c: "0 < capacity b" "0 \<le> start b" "start b < capacity b" "0 \<le> size_b b"
    using assms by (simp_all add: wf_buffer_def)
  let ?k = "(start b + size_b b) mod capacity b"
  let ?b' = "b\<lparr>size_b := size_b b + 1, data := Some (d[nat ?k := v])\<rparr>"
  have k: "0 \<le> ?k" "?k < int (length d)" using c d by simp_all
  have st: "store_slot (b\<lparr>size_b := size_b b + 1\<rparr>) (Some ?k) v = Inr ?b'"
    using k d by (simp add: store_slot_def)
  have wf: "wf_buffer ?b'" using assms d by (simp add: wf_buffer_def)
  have ne: "(start b + int i) mod capacity b \<noteq> ?k" if "i < nat (size_b b)" for i
  proof
    assume e: "(start b + int i) mod capacity b = ?k"
    have "int i = size_b b"
    proof (rule mod_inj_range [of "capacity b" _ _ "start b"])
      show "0 < capacity b" by (rule c(1))
      show "0 \<le> int i" by simp
      show "int i < capacity b" using that assms(2) by linarith
      show "0 \<le> size_b b" by (rule c(4))
      show "size_b b < capacity b" by (rule assms(2))
      show "(start b + int i) mod capacity b = (start b + size_b b) mod capacity b" by (rule e)
    qed
    then show False using that by simp
  qed
  have old: "d[nat ?k := v] ! nat ((start b + int i) mod capacity b)
           = d ! nat ((start b + int i) mod capacity b)" if "i < nat (size_b b)" for i
  proof -
    have "0 \<le> (start b + int i) mod capacity b" using c by simp
    with ne [OF that] k(1) have "nat ?k \<noteq> nat ((start b + int i) mod capacity b)"
      by simp
    then show ?thesis by (rule nth_list_update_neq)
  qed
  have new: "d[nat ?k := v] ! nat ?k = v" using k by simp
  have n: "[0..<nat (size_b b + 1)] = [0..<nat (size_b b)] @ [nat (size_b b)]"
    using c by (simp add: nat_add_distrib)
  have last: "int (nat (size_b b)) = size_b b" using c by simp
  have "content ?b' =
      map (\<lambda>i. d[nat ?k := v] ! nat ((start b + int i) mod capacity b)) [0..<nat (size_b b)]
      @ [d[nat ?k := v] ! nat ?k]"
    unfolding content_def using c(4) by (simp add: n)
  also have "map (\<lambda>i. d[nat ?k := v] ! nat ((start b + int i) mod capacity b)) [0..<nat (size_b b)]
      = map (\<lambda>i. d ! nat ((start b + int i) mod capacity b)) [0..<nat (size_b b)]"
    by (rule map_cong [OF refl]) (simp add: old)
  finally have "content ?b' = content b @ [v]"
    unfolding new by (simp add: content_def d)
  with st wf show ?thesis by (intro exI [of _ ?b']) simp
qed

lemma DequeueBufferIntoBuffer_wf:
  assumes "wf_buffer dst" and "wf_buffer src" and "0 < size_b src" and "size_b dst < capacity dst"
  shows "\<exists>dst' src' slot.
           DequeueBufferIntoBuffer dst src = Inr (dst', src', slot)
         \<and> wf_buffer dst' \<and> wf_buffer src'
         \<and> content dst' = content dst @ [hd (content src)]
         \<and> content src' = tl (content src)
         \<and> size_b dst' = size_b dst + 1 \<and> size_b src' = size_b src - 1
         \<and> capacity dst' = capacity dst \<and> capacity src' = capacity src
         \<and> slotsize dst' = slotsize dst \<and> slotsize src' = slotsize src
         \<and> slot = Some ((start dst + size_b dst) mod capacity dst)
         \<and> start dst' = start dst"
proof -
  let ?src' = "src\<lparr>start := (start src + 1) mod capacity src, size_b := size_b src - 1\<rparr>"
  note dq = DequeueBuffer_wf [OF assms(2,3)]
  note eq = EnqueueBuffer_wf [OF assms(1,4)]
  from store_new_slot [OF assms(1,4), of "hd (content src)"] obtain dst' where
    st: "store_slot (dst\<lparr>size_b := size_b dst + 1\<rparr>)
           (Some ((start dst + size_b dst) mod capacity dst)) (hd (content src)) = Inr dst'"
    and r: "wf_buffer dst'" "content dst' = content dst @ [hd (content src)]"
      "capacity dst' = capacity dst" "size_b dst' = size_b dst + 1"
      "slotsize dst' = slotsize dst" "start dst' = start dst"
    by blast
  have "DequeueBufferIntoBuffer dst src =
          Inr (dst', ?src', Some ((start dst + size_b dst) mod capacity dst))"
    unfolding DequeueBufferIntoBuffer_def dq(1) eq seq_def by (simp add: dq(4) st)
  with r dq(2,3) show ?thesis by simp
qed

subsection \<open>The three buffers of a stream\<close>

lemma DequeueWhole_empty:
  "size_b src \<le> 0 \<Longrightarrow> DequeueWholeBufferIntoBuffer dst src = Inr (dst, src)"
  by (subst DequeueWholeBufferIntoBuffer.simps) simp

lemma DequeueWhole_wf:
  "wf_buffer dst \<Longrightarrow> wf_buffer src \<Longrightarrow> size_b dst + size_b src \<le> capacity dst \<Longrightarrow>
   \<exists>dst' src'. DequeueWholeBufferIntoBuffer dst src = Inr (dst', src')
     \<and> wf_buffer dst' \<and> wf_buffer src'
     \<and> content dst' = content dst @ content src \<and> content src' = []
     \<and> size_b dst' = size_b dst + size_b src \<and> size_b src' = 0
     \<and> capacity dst' = capacity dst \<and> capacity src' = capacity src"
proof (induction dst src rule: DequeueWholeBufferIntoBuffer.induct)
  case (1 dst src)
  show ?case
  proof (cases "0 < size_b src")
    case True
    have room: "size_b dst < capacity dst" using True "1.prems"(3) by simp
    from DequeueBufferIntoBuffer_wf [OF "1.prems"(1,2) True room]
    obtain d1 s1 slot where
      mv: "DequeueBufferIntoBuffer dst src = Inr (d1, s1, slot)"
      and w: "wf_buffer d1" "wf_buffer s1"
      and c: "content d1 = content dst @ [hd (content src)]" "content s1 = tl (content src)"
      and z: "size_b d1 = size_b dst + 1" "size_b s1 = size_b src - 1"
      and k: "capacity d1 = capacity dst" "capacity s1 = capacity src"
      by blast
    have pre: "size_b d1 + size_b s1 \<le> capacity d1" using z k "1.prems"(3) by simp
    from "1.IH" [OF True mv refl refl w pre]
    obtain d2 s2 where
      r: "DequeueWholeBufferIntoBuffer d1 s1 = Inr (d2, s2)"
      and w2: "wf_buffer d2" "wf_buffer s2"
      and c2: "content d2 = content d1 @ content s1" "content s2 = []"
      and z2: "size_b d2 = size_b d1 + size_b s1" "size_b s2 = 0"
      and k2: "capacity d2 = capacity d1" "capacity s2 = capacity s1"
      by blast
    have ne: "content src \<noteq> []"
      using length_content [OF "1.prems"(2)] True by auto
    have "DequeueWholeBufferIntoBuffer dst src = Inr (d2, s2)"
      using True mv r by (subst DequeueWholeBufferIntoBuffer.simps) simp
    moreover have "content d2 = content dst @ content src"
      using c c2 ne by simp
    ultimately show ?thesis using w2 c2 z z2 k k2 by simp
  next
    case False
    then have e: "size_b src = 0" using "1.prems"(2) by (simp add: wf_buffer_def)
    have "DequeueWholeBufferIntoBuffer dst src = Inr (dst, src)"
      using False by (intro DequeueWhole_empty) simp
    then show ?thesis
      using "1.prems" e by (simp add: content_empty)
  qed
qed

text \<open>A drain between two of the three buffers of a stream.\<close>

lemma stream_inv_cap0:
  "stream_inv st ws \<Longrightarrow> capacity (buffer st) = 0 \<Longrightarrow>
   size_b (buffer st) = 0 \<and> size_b (framequeue ws) = 0 \<and> size_b (framepool ws) = 0"
  by (auto simp: stream_inv_def frame_slots_def)

lemma stream_inv_wf:
  "stream_inv st ws \<Longrightarrow> capacity (buffer st) \<noteq> 0 \<Longrightarrow>
   wf_buffer (buffer st) \<and> wf_buffer (framequeue ws) \<and> wf_buffer (framepool ws)"
  by (simp add: stream_inv_def)


subsection \<open>Storing into slots and filling a pool\<close>

lemma store_slot_shape:
  "store_slot b p v = Inr b' \<Longrightarrow>
   capacity b' = capacity b \<and> start b' = start b \<and> size_b b' = size_b b
   \<and> slotsize b' = slotsize b \<and> wf_buffer b' = wf_buffer b"
  by (auto simp: store_slot_def wf_buffer_def split: option.splits if_splits)

lemma store_used_slot:
  assumes "wf_buffer b" and "0 \<le> i" and "i < size_b b"
  shows "\<exists>b'. store_slot b (Some ((start b + i) mod capacity b)) v = Inr b'
           \<and> wf_buffer b' \<and> content b' = (content b)[nat i := v]
           \<and> capacity b' = capacity b \<and> start b' = start b \<and> size_b b' = size_b b"
proof -
  from assms obtain d where d: "data b = Some d" "int (length d) = capacity b"
    by (auto simp: wf_buffer_def split: option.splits)
  have c: "0 < capacity b" "0 \<le> start b" "start b < capacity b" "size_b b \<le> capacity b"
    using assms by (simp_all add: wf_buffer_def)
  let ?k = "(start b + i) mod capacity b"
  let ?b' = "b\<lparr>data := Some (d[nat ?k := v])\<rparr>"
  have k: "0 \<le> ?k" "?k < int (length d)" using c d by simp_all
  have st: "store_slot b (Some ?k) v = Inr ?b'" using k d by (simp add: store_slot_def)
  have wf: "wf_buffer ?b'" using assms d by (simp add: wf_buffer_def)
  have "content ?b' = (content b)[nat i := v]"
  proof (rule nth_equalityI)
    show "length (content ?b') = length ((content b)[nat i := v])"
      by (simp add: content_def d)
  next
    fix j assume "j < length (content ?b')"
    then have j: "j < nat (size_b b)" by (simp add: content_def d)
    show "content ?b' ! j = (content b)[nat i := v] ! j"
    proof (cases "j = nat i")
      case True
      then have "int j = i" using assms(2) by simp
      moreover have "nat ?k < length d" using k by simp
      ultimately show ?thesis using j True by (simp add: content_def d(1))
    next
      case False
      have "(start b + int j) mod capacity b \<noteq> ?k"
      proof
        assume e: "(start b + int j) mod capacity b = ?k"
        have "int j = i"
        proof (rule mod_inj_range [of "capacity b" _ _ "start b"])
          show "0 < capacity b" by (rule c(1))
          show "0 \<le> int j" by simp
          show "int j < capacity b" using j c(4) by linarith
          show "0 \<le> i" by (rule assms(2))
          show "i < capacity b" using assms(3) c(4) by linarith
          show "(start b + int j) mod capacity b = (start b + i) mod capacity b" by (rule e)
        qed
        then show False using False by simp
      qed
      moreover have "0 \<le> (start b + int j) mod capacity b" using c by simp
      ultimately have "nat ?k \<noteq> nat ((start b + int j) mod capacity b)" using k(1) by simp
      then show ?thesis using j False by (simp add: content_def d)
    qed
  qed
  with st wf show ?thesis by (intro exI [of _ ?b']) simp
qed

lemma filling_done:
  "filling pool i \<Longrightarrow> \<not> i < capacity pool \<Longrightarrow>
   size_b pool = capacity pool \<and> (capacity pool \<noteq> 0 \<longrightarrow> wf_buffer pool)"
  by (auto simp: filling_def wf_buffer_def)

lemma filling_step:
  assumes "filling pool i" and "i < capacity pool"
    and "EnqueueBuffer pool = Inr (pool', slot)" and "store_slot pool' slot v = Inr pool''"
  shows "filling pool'' (i + 1) \<and> capacity pool'' = capacity pool"
  using assms
  by (auto simp: filling_def EnqueueBuffer_def Let_def seq_def GetBufferSlot_def
      store_slot_def split: if_splits option.splits)


lemma init_images_filling:
  "init_images patches alloc i pool = Inr pool' \<Longrightarrow> filling pool i \<Longrightarrow>
   size_b pool' = capacity pool \<and> capacity pool' = capacity pool
   \<and> (capacity pool \<noteq> 0 \<longrightarrow> wf_buffer pool')"
proof (induction patches alloc i pool rule: init_images.induct)
  case (1 patches alloc i pool)
  show ?case
  proof (cases "i < capacity pool")
    case True
    with "1.prems"(1) obtain p1 slot fr a p2 where
      e: "EnqueueBuffer pool = Inr (p1, slot)" and
      l: "load_slot p1 slot = Inr fr" and
      a: "alloc i = Some a" and
      st: "store_slot p1 slot (fr\<lparr>image := (if patches then (image fr)\<lparr>patch := a\<rparr>
                                                  else (image fr)\<lparr>rgba_data0 := a\<rparr>)\<rparr>) = Inr p2" and
      r: "init_images patches alloc (i + 1) p2 = Inr pool'"
      by (subst (asm) init_images.simps)
         (auto split: sum.splits if_splits prod.splits option.splits)
    from filling_step [OF "1.prems"(2) True e st]
    have f: "filling p2 (i + 1)" and c: "capacity p2 = capacity pool" by simp_all
    from "1.IH" [OF True e refl l a st r f] c show ?thesis by simp
  next
    case False
    with "1.prems"(1) have "pool' = pool" by (subst (asm) init_images.simps) simp
    with filling_done [OF "1.prems"(2) False] show ?thesis by simp
  qed
qed

lemma InitialiseBuffer_fresh:
  "InitialiseBuffer c s z = Inr b \<Longrightarrow>
   capacity b = c \<and> 0 \<le> c \<and> size_b b = 0 \<and> start b = 0 \<and> filling b 0
   \<and> (c \<noteq> 0 \<longrightarrow> wf_buffer b)"
  by (auto simp: InitialiseBuffer_def calloc_def filling_def wf_buffer_def split: if_splits)

lemma CloneBuffer_fresh:
  "CloneBuffer b z = Inr b' \<Longrightarrow> filling b 0 \<Longrightarrow>
   capacity b' = capacity b \<and> size_b b' = 0 \<and> start b' = 0 \<and> filling b' 0
   \<and> (capacity b \<noteq> 0 \<longrightarrow> wf_buffer b')"
  by (auto simp: CloneBuffer_def calloc_def filling_def wf_buffer_def
      split: if_splits option.splits)

subsection \<open>Three buffers sharing the slots\<close>

lemma stream_inv_trio:
  "stream_inv st ws = trio (capacity (buffer st)) (buffer st) (framequeue ws) (framepool ws)"
  by (auto simp: stream_inv_def trio_def frame_slots_def)



lemma trio_move:
  assumes "trio c x y z" and "0 < size_b y"
  shows "\<exists>x' y' slot. DequeueBufferIntoBuffer x y = Inr (x', y', slot) \<and> trio c x' y' z
           \<and> wf_buffer x' \<and> wf_buffer y'
           \<and> size_b y' = size_b y - 1 \<and> size_b x' = size_b x + 1
           \<and> content x' = content x @ [hd (content y)] \<and> content y' = tl (content y)
           \<and> slot = Some ((start x + size_b x) mod capacity x) \<and> start x' = start x
           \<and> capacity x' = c"
proof -
  have nz: "c \<noteq> 0" using assms by (auto simp: trio_def)
  with assms have w: "wf_buffer x" "wf_buffer y" "wf_buffer z"
    and s: "size_b x < capacity x" by (auto simp: trio_def)
  from DequeueBufferIntoBuffer_wf [OF w(1,2) assms(2) s] obtain x' y' slot where
    r: "DequeueBufferIntoBuffer x y = Inr (x', y', slot)" "wf_buffer x'" "wf_buffer y'"
      "content x' = content x @ [hd (content y)]" "content y' = tl (content y)"
      "size_b x' = size_b x + 1" "size_b y' = size_b y - 1"
      "capacity x' = capacity x" "capacity y' = capacity y"
      "slot = Some ((start x + size_b x) mod capacity x)" "start x' = start x"
    by blast
  have "trio c x' y' z" using assms r w by (auto simp: trio_def)
  with r assms(1) show ?thesis by (simp add: trio_def)
qed

lemma trio_store:
  "trio c x y z \<Longrightarrow> store_slot x p v = Inr x' \<Longrightarrow> trio c x' y z"
  by (auto simp: trio_def dest!: store_slot_shape)

lemma trio_zero: "trio 0 zero_buffer zero_buffer zero_buffer"
  by (simp add: trio_def zero_buffer_def)

subsection \<open>Evicting and clearing frames\<close>







lemma stream_inv_produce:
  assumes "stream_inv st ws" and "0 < size_b (framepool ws)"
    and "store_slot (framepool ws) slot v = Inr p"
    and "DequeueBufferIntoBuffer (framequeue ws) p = Inr (q, p', s)"
  shows "stream_inv st (ws\<lparr>framequeue := q, framepool := p'\<rparr>)"
proof -
  from assms(1) have t: "trio (capacity (buffer st)) (framepool ws) (framequeue ws) (buffer st)"
    by (auto simp: stream_inv_trio trio_def)
  from trio_store [OF t assms(3)]
  have "trio (capacity (buffer st)) (framequeue ws) p (buffer st)" by (auto simp: trio_def)
  moreover have "0 < size_b p" using assms(2,3) by (auto dest!: store_slot_shape)
  ultimately have "trio (capacity (buffer st)) q p' (buffer st)"
    using trio_move [of "capacity (buffer st)" "framequeue ws" p "buffer st"] assms(4) by auto
  then show ?thesis by (auto simp: stream_inv_trio trio_def)
qed

subsection \<open>Draining the worker queues\<close>







subsection \<open>Flushing, seeking and decoded frames\<close>





lemma ParseVideoFrame_inv:
  assumes "ParseVideoFrame w = Inr w'" and "stream_inv st (videostream_w w)"
    and "0 < size_b (framepool (videostream_w w))"
  shows "stream_inv st (videostream_w w')" and "audiostream_w w' = audiostream_w w"
proof -
  from assms(1) obtain slot v pool q pool' s where
    st: "store_slot (framepool (videostream_w w)) slot v = Inr pool"
    and mv: "DequeueBufferIntoBuffer (framequeue (videostream_w w)) pool = Inr (q, pool', s)"
    and w': "w' = w\<lparr>nextframeid := nextframeid w + 1,
                    videostream_w := (videostream_w w)\<lparr>framequeue := q, framepool := pool'\<rparr>\<rparr>"
    by (auto simp: ParseVideoFrame_def Let_def seq_def split: sum.splits)
  from stream_inv_produce [OF assms(2,3) st mv]
  show "stream_inv st (videostream_w w')" by (simp add: w')
  show "audiostream_w w' = audiostream_w w" by (simp add: w')
qed




subsection \<open>Starting a movie\<close>

lemma init_packets_frames:
  "init_packets alloc_ok i w = Inr w' \<Longrightarrow>
   videostream_w w' = videostream_w w \<and> audiostream_w w' = audiostream_w w
   \<and> nextframeid w' = nextframeid w \<and> packetqueue w' = packetqueue w"
proof (induction alloc_ok i w rule: init_packets.induct)
  case (1 alloc_ok i w)
  show ?case
  proof (cases "i < capacity (packetpool w)")
    case True
    let ?w1 = "w\<lparr>packet_store := packet_store w @ [blank_packet]\<rparr>"
    from "1.prems" True obtain pool slot pool' where
      ok: "alloc_ok i"
      and e: "EnqueueBuffer (packetpool ?w1) = Inr (pool, slot)"
      and s: "store_slot pool slot (length (packet_store w)) = Inr pool'"
      and r: "init_packets alloc_ok (i + 1) (?w1\<lparr>packetpool := pool'\<rparr>) = Inr w'"
      by (subst (asm) init_packets.simps)
         (auto simp: Let_def split: if_splits sum.splits prod.splits)
    from "1.IH" [OF True _ refl refl e refl s r] ok show ?thesis by simp
  next
    case False
    with "1.prems" show ?thesis by (subst (asm) init_packets.simps) simp
  qed
qed

lemma InitialisePacketQueue_frames:
  "InitialisePacketQueue w a = Inr w' \<Longrightarrow>
   videostream_w w' = videostream_w w \<and> audiostream_w w' = audiostream_w w
   \<and> nextframeid w' = nextframeid w"
  by (auto simp: InitialisePacketQueue_def seq_def split: sum.splits
      dest!: init_packets_frames)

lemma InitialiseImages_cases:
  assumes "InitialiseImages w alloc = Inr w'"
  shows "\<exists>pool. init_images (usepatches_w w) alloc 0 (framepool (videostream_w w)) = Inr pool
           \<and> videostream_w w' = (videostream_w w)\<lparr>framepool := pool\<rparr>
           \<and> audiostream_w w' = audiostream_w w \<and> nextframeid w' = nextframeid w"
  using assms
  by (auto simp: InitialiseImages_def Let_def seq_def
      split: sum.splits if_splits option.splits)

lemma InitialiseDecodeWorker_cases:
  assumes "InitialiseDecodeWorker movie lib = Inr m'"
  shows "\<exists>q pool pool' vctx actx w3.
           CloneBuffer (buffer (videostream movie)) zero_videoframe = Inr q
         \<and> CloneBuffer (buffer (videostream movie)) zero_videoframe = Inr pool
         \<and> init_images (usepatches movie) (alloc_image lib) 0 pool = Inr pool'
         \<and> videostream_w w3 = (videostream_w (decodeworker movie))
               \<lparr>index_w := index (videostream movie), codeccontext := vctx,
                framequeue := q, framepool := pool'\<rparr>
         \<and> audiostream_w w3 = (audiostream_w (decodeworker movie))
               \<lparr>index_w := index (audiostream movie), codeccontext := actx\<rparr>
         \<and> nextframeid w3 = nextframeid (decodeworker movie)
         \<and> m' = movie\<lparr>decodeworker := w3\<lparr>frame := zero_frame\<rparr>\<rparr>"
proof -
  from assms obtain vctx actx q pool w2 w3 where
    q: "CloneBuffer (buffer (videostream movie)) zero_videoframe = Inr q"
    and p: "CloneBuffer (buffer (videostream movie)) zero_videoframe = Inr pool"
    and i: "InitialiseImages ((decodeworker movie)\<lparr>usepatches_w := usepatches movie,
               videostream_w := (videostream_w (decodeworker movie))
                 \<lparr>index_w := index (videostream movie), codeccontext := vctx,
                  framequeue := q, framepool := pool\<rparr>,
               audiostream_w := (audiostream_w (decodeworker movie))
                 \<lparr>index_w := index (audiostream movie), codeccontext := actx\<rparr>\<rparr>)
             (alloc_image lib) = Inr w2"
    and k: "InitialisePacketQueue w2 (alloc_packet lib) = Inr w3"
    and m': "m' = movie\<lparr>decodeworker := w3\<lparr>frame := zero_frame\<rparr>\<rparr>"
    by (auto simp: InitialiseDecodeWorker_def Let_def seq_def
        split: sum.splits if_splits option.splits)
  from InitialiseImages_cases [OF i] obtain pool' where
    ii: "init_images (usepatches movie) (alloc_image lib) 0 pool = Inr pool'"
      "videostream_w w2 = (videostream_w (decodeworker movie))
                 \<lparr>index_w := index (videostream movie), codeccontext := vctx,
                  framequeue := q, framepool := pool'\<rparr>"
      "audiostream_w w2 = (audiostream_w (decodeworker movie))
                 \<lparr>index_w := index (audiostream movie), codeccontext := actx\<rparr>"
      "nextframeid w2 = nextframeid (decodeworker movie)"
    by auto
  from InitialisePacketQueue_frames [OF k] ii q p m' show ?thesis by auto
qed

lemma InitialiseDemuxing_fields:
  "InitialiseDemuxing movie lib = Inr m' \<Longrightarrow>
   decodeworker m' = decodeworker movie \<and> buffer (videostream m') = buffer (videostream movie)
   \<and> buffer (audiostream m') = buffer (audiostream movie)
   \<and> lastvideoframeusedid m' = lastvideoframeusedid movie
   \<and> position m' = position movie \<and> audioposition m' = audioposition movie
   \<and> usepatches m' = usepatches movie"
  by (auto simp: InitialiseDemuxing_def Let_def seq_def
      split: option.splits if_splits sum.splits)

lemma InitialiseVideoBuffer_cases:
  "InitialiseVideoBuffer movie slot = Inr m' \<Longrightarrow>
   \<exists>c b. InitialiseBuffer c slot zero_videoframe = Inr b
     \<and> m' = movie\<lparr>videostream := (videostream movie)\<lparr>numplanes := 1, buffer := b\<rparr>\<rparr>"
  by (auto simp: InitialiseVideoBuffer_def Let_def seq_def
      split: option.splits if_splits sum.splits)

lemma MovieDecode_Play_inv:
  assumes "MovieDecode_Play lump patches lib = Inr m"
  shows "movie_inv m" and "lastvideoframeusedid m = 0" and "nextframeid (decodeworker m) = 0"
    and "size_b (buffer (videostream m)) = 0" and "size_b (framequeue (videostream_w (decodeworker m))) = 0"
    and "audiostream_w (decodeworker m)
           = zero_workerstream\<lparr>index_w := index (audiostream m),
                                 codeccontext := codeccontext (audiostream_w (decodeworker m))\<rparr>"
    and "buffer (audiostream m) = zero_buffer"
    and "position m = 0" and "audioposition m = 0" and "usepatches m = patches"
    and "index_w (videostream_w (decodeworker m)) = index (videostream m)"
proof -
  let ?m0 = "zero_movie\<lparr>lastvideoframeusedid := 0, position := 0, audioposition := 0,
                              usepatches := patches\<rparr>"
  from assms obtain m1 m2 m3 where
    c: "CacheMovieLump ?m0 lump = Inr m1"
    and d: "InitialiseDemuxing m1 lib = Inr m2"
    and v: "InitialiseVideoBuffer m2 (sizeof_videoframe lib) = Inr m3"
    and w: "InitialiseDecodeWorker m3 lib = Inr m"
    by (auto simp: MovieDecode_Play_def Let_def seq_def split: sum.splits)
  from c have m1: "decodeworker m1 = zero_worker" "buffer (audiostream m1) = zero_buffer"
    "lastvideoframeusedid m1 = 0" "position m1 = 0" "audioposition m1 = 0"
    "usepatches m1 = patches"
    by (auto simp: CacheMovieLump_def zero_movie_def zero_stream_def split: option.splits)
  note m2 = InitialiseDemuxing_fields [OF d]
  from InitialiseVideoBuffer_cases [OF v] obtain c0 b where
    b: "InitialiseBuffer c0 (sizeof_videoframe lib) zero_videoframe = Inr b"
    and m3: "m3 = m2\<lparr>videostream := (videostream m2)\<lparr>numplanes := 1, buffer := b\<rparr>\<rparr>"
    by blast
  from InitialiseDecodeWorker_cases [OF w] obtain q pool pool' vctx actx w3 where
    q: "CloneBuffer (buffer (videostream m3)) zero_videoframe = Inr q"
    and p: "CloneBuffer (buffer (videostream m3)) zero_videoframe = Inr pool"
    and i: "init_images (usepatches m3) (alloc_image lib) 0 pool = Inr pool'"
    and vw: "videostream_w w3 = (videostream_w (decodeworker m3))
               \<lparr>index_w := index (videostream m3), codeccontext := vctx,
                framequeue := q, framepool := pool'\<rparr>"
    and aw: "audiostream_w w3 = (audiostream_w (decodeworker m3))
               \<lparr>index_w := index (audiostream m3), codeccontext := actx\<rparr>"
    and nf: "nextframeid w3 = nextframeid (decodeworker m3)"
    and m: "m = m3\<lparr>decodeworker := w3\<lparr>frame := zero_frame\<rparr>\<rparr>"
    by blast
  note fb = InitialiseBuffer_fresh [OF b]
  then have f0: "filling (buffer (videostream m3)) 0" by (simp add: m3)
  note fq = CloneBuffer_fresh [OF q f0]
  note fp = CloneBuffer_fresh [OF p f0]
  from fp have "filling pool 0" by simp
  note ff = init_images_filling [OF i this]
  have sv: "stream_inv (videostream m) (videostream_w (decodeworker m))"
    using fb fq fp ff by (simp add: m vw m3 stream_inv_def frame_slots_def)
  have za: "audiostream_w (decodeworker m3) = zero_workerstream"
    using m1 m2 by (simp add: m3 zero_worker_def)
  have ba: "buffer (audiostream m) = zero_buffer" using m1 m2 by (simp add: m m3)
  have sa: "stream_inv (audiostream m) (audiostream_w (decodeworker m))"
    using za ba by (simp add: m aw stream_inv_def frame_slots_def zero_workerstream_def
        zero_buffer_def)
  show "movie_inv m" using sv sa by (simp add: movie_inv_def)
  show "lastvideoframeusedid m = 0" "position m = 0" "audioposition m = 0"
    "usepatches m = patches"
    using m1 m2 by (simp_all add: m m3)
  show "nextframeid (decodeworker m) = 0" using nf m1 m2 by (simp add: m m3 zero_worker_def)
  show "size_b (buffer (videostream m)) = 0" using fb by (simp add: m m3)
  show "size_b (framequeue (videostream_w (decodeworker m))) = 0" using fq by (simp add: m vw)
  show "audiostream_w (decodeworker m)
           = zero_workerstream\<lparr>index_w := index (audiostream m),
                                 codeccontext := codeccontext (audiostream_w (decodeworker m))\<rparr>"
    using za by (simp add: m aw m3 zero_workerstream_def)
  show "buffer (audiostream m) = zero_buffer" by (rule ba)
  show "index_w (videostream_w (decodeworker m)) = index (videostream m)"
    by (simp add: m vw)
qed

subsection \<open>An example run\<close>

lemma example_run_ok:
  "(case example_run of
      Inl e \<Rightarrow> False
    | Inr (m0, w1, m2) \<Rightarrow>
        \<not> queuesfull (decodeworker m0) \<and> capacity (buffer (videostream m0)) = 2
        \<and> size_b (buffer (videostream m2)) = 1
        \<and> size_b (framepool (videostream_w (decodeworker m2))) = 1)"
  by code_simp

subsection \<open>Frame slots of a stream\<close>





lemma queuesfull_pools:
  assumes "\<not> queuesfull w" and "stream_inv vs (videostream_w w)"
    and "stream_inv as (audiostream_w w)"
  shows "0 < size_b (framepool (videostream_w w))"
    and "data (framequeue (audiostream_w w)) \<noteq> None \<longrightarrow> 0 < size_b (framepool (audiostream_w w))"
  using assms by (auto simp: queuesfull_def Let_def stream_inv_def)






















subsection \<open>The first frame after MovieDecode\_Play\<close>

lemma first_video_frame:
  assumes i: "stream_inv st ws" and e: "size_b (buffer st) = 0" "size_b (framequeue ws) = 0"
    and pos: "0 < size_b (framepool ws)"
    and v: "ParseVideoFrame (w\<lparr>frame := f\<rparr>) = Inr w1" and ws: "videostream_w w = ws"
    and d: "DequeueWholeBufferIntoBuffer (buffer st) (framequeue (videostream_w w1)) = Inr (b, q)"
  shows "\<exists>fr. wf_buffer b \<and> size_b b = 1 \<and> content b = [fr]
          \<and> id_v fr = nextframeid w \<and> pts_v fr = frame_pts f"
proof -
  from i pos have c: "capacity (buffer st) \<noteq> 0" using stream_inv_cap0 [OF i] by auto
  from stream_inv_wf [OF i c]
  have wf: "wf_buffer (buffer st)" "wf_buffer (framequeue ws)" "wf_buffer (framepool ws)"
    by simp_all
  have k: "capacity (framequeue ws) = capacity (buffer st)" using i by (simp add: stream_inv_def)
  have pk: "PeekBuffer (framepool ws) = Inr (Some (start (framepool ws) mod capacity (framepool ws)))"
    unfolding PeekBuffer_def using GetBufferSlot_wf [OF wf(3), of 0] by simp
  have ld: "load_slot (framepool ws) (Some (start (framepool ws) mod capacity (framepool ws)))
              = Inr (content (framepool ws) ! 0)"
    using load_slot_wf [OF wf(3) _ pos] by simp
  define fr where "fr = (content (framepool ws) ! 0)\<lparr>id_v := nextframeid w,
      pts_v := frame_pts f, duration_v := pkt_duration f\<rparr>"
  from store_used_slot [where i = 0 and v = fr, OF wf(3) _ pos, simplified] obtain p1 where
    st: "store_slot (framepool ws) (Some (start (framepool ws) mod capacity (framepool ws))) fr
           = Inr p1"
    and p1: "wf_buffer p1" "content p1 = (content (framepool ws))[0 := fr]"
      "size_b p1 = size_b (framepool ws)"
    by auto
  have len: "0 < length (content (framepool ws))"
    using length_content [OF wf(3)] pos by simp
  have hd1: "hd (content p1) = fr" using len p1(2) by (cases "content (framepool ws)") simp_all
  have room: "size_b (framequeue ws) < capacity (framequeue ws)"
    using e(2) wf(2) by (simp add: wf_buffer_def)
  from DequeueBufferIntoBuffer_wf [OF wf(2) p1(1) _ room] pos p1(3) obtain q1 p2 s where
    mv: "DequeueBufferIntoBuffer (framequeue ws) p1 = Inr (q1, p2, s)"
    and q1: "wf_buffer q1" "content q1 = content (framequeue ws) @ [hd (content p1)]"
      "size_b q1 = size_b (framequeue ws) + 1" "capacity q1 = capacity (framequeue ws)"
    by auto
  have cq: "content q1 = [fr]" using q1(2) hd1 content_empty [OF wf(2) e(2)] by simp
  from v have w1: "framequeue (videostream_w w1) = q1"
    by (auto simp: ParseVideoFrame_def Let_def seq_def ws pk ld fr_def [symmetric] st mv)
  have "size_b (buffer st) + size_b q1 \<le> capacity (buffer st)"
    using e(1) q1(3) e(2) wf(1) by (simp add: wf_buffer_def)
  from DequeueWhole_wf [OF wf(1) q1(1) this] d w1
  have "wf_buffer b" "content b = content (buffer st) @ content q1"
    "size_b b = size_b (buffer st) + size_b q1" by auto
  with cq content_empty [OF wf(1) e(1)] e q1(3)
  have "wf_buffer b \<and> size_b b = 1 \<and> content b = [fr]" by simp
  moreover have "id_v fr = nextframeid w \<and> pts_v fr = frame_pts f" by (simp add: fr_def)
  ultimately show ?thesis by blast
qed

lemma single_frame_found:
  assumes "wf_buffer b" and "size_b b = 1" and "content b = [fr]" and "pts_v fr \<le> pts"
  shows "find_video_from b pts (size_b b - 1) = Inr 0"
    and "GetBufferSlot b 0 = Inr (Some (start b mod capacity b))"
    and "load_slot b (Some (start b mod capacity b)) = Inr fr"
proof -
  show g: "GetBufferSlot b 0 = Inr (Some (start b mod capacity b))"
    using GetBufferSlot_wf [OF assms(1), of 0] by simp
  from load_slot_wf [OF assms(1), of 0] assms(2,3)
  show l: "load_slot b (Some (start b mod capacity b)) = Inr fr" by simp
  show "find_video_from b pts (size_b b - 1) = Inr 0"
    by (subst find_video_from.simps) (simp add: assms(2,4) g l)
qed

lemma example_run_pts:
  "(case example_run of Inl e \<Rightarrow> False
    | Inr (m0, w1, m2) \<Rightarrow> \<not> queuesfull (decodeworker m0)
        \<and> MSToVideoPTS m2 (position m2) = Inr 0)"
  by code_simp

text \<open>Claim C5. The first video frame decoded after MovieDecode\_Play is given the id 0
  (the worker's nextframeid starts at 0), and MovieDecode\_Play sets lastvideoframeusedid to
  0 as well: once that frame has been drained into the buffer and the position has reached
  its pts, MovieDecode\_GetImage finds it at index 0 and returns NULL, leaving the movie as
  it is, although the frame has never been delivered.\<close>

theorem C5_first_frame_withheld:
  assumes "MovieDecode_Play lump patches lib = Inr m0"
    and "\<not> queuesfull (decodeworker m0)"
    and "ParseVideoFrame ((decodeworker m0)\<lparr>frame := f\<rparr>) = Inr w1"
    and "PollVideoFrameQueue (m0\<lparr>decodeworker := w1\<rparr>) = Inr m"
    and "MSToVideoPTS m (position m) = Inr pts" and "frame_pts f \<le> pts"
  shows "size_b (buffer (videostream m)) = 1
       \<and> FindVideoBufferIndexForPosition m pts = Inr 0
       \<and> lastvideoframeusedid m = 0
       \<and> MovieDecode_GetImage m = Inr (m, None)"
proof -
  note pl = MovieDecode_Play_inv [OF assms(1)]
  from pl(1) have i: "stream_inv (videostream m0) (videostream_w (decodeworker m0))"
    and a: "stream_inv (audiostream m0) (audiostream_w (decodeworker m0))"
    by (simp_all add: movie_inv_def)
  from queuesfull_pools(1) [OF assms(2) i a]
  have pos: "0 < size_b (framepool (videostream_w (decodeworker m0)))" .
  from ParseVideoFrame_inv [OF assms(3)] i pos
  have i1: "stream_inv (videostream m0) (videostream_w w1)" by simp
  show ?thesis
  proof (cases "size_b (framequeue (videostream_w w1)) \<noteq> 0")
    case True
    with assms(4) obtain b q where
      d: "DequeueWholeBufferIntoBuffer (buffer (videostream m0)) (framequeue (videostream_w w1))
            = Inr (b, q)"
      and m: "m = m0\<lparr>videostream := (videostream m0)\<lparr>buffer := b\<rparr>,
                     decodeworker := w1\<lparr>videostream_w := (videostream_w w1)\<lparr>framequeue := q\<rparr>\<rparr>\<rparr>"
      by (auto simp: PollVideoFrameQueue_def Let_def seq_def split: sum.splits)
    from first_video_frame [OF i pl(4,5) pos assms(3) refl d] obtain fr where
      b: "wf_buffer b" "size_b b = 1" "content b = [fr]"
      and fr: "id_v fr = nextframeid (decodeworker m0)" "pts_v fr = frame_pts f"
      by auto
    from fr(2) assms(6) have le: "pts_v fr \<le> pts" by simp
    note s = single_frame_found [OF b le]
    have l: "lastvideoframeusedid m = 0" using pl(2) by (simp add: m)
    have bm: "buffer (videostream m) = b" by (simp add: m)
    have f: "FindVideoBufferIndexForPosition m pts = Inr 0"
      by (simp add: FindVideoBufferIndexForPosition_def bm s(1))
    have "MovieDecode_GetImage m = Inr (m, None)"
      by (simp add: MovieDecode_GetImage_def seq_def assms(5) f bm s(2,3) l fr(1) pl(3))
    with b(2) bm f l show ?thesis by simp
  next
    case False
    then have "DequeueWholeBufferIntoBuffer (buffer (videostream m0))
            (framequeue (videostream_w w1))
          = Inr (buffer (videostream m0), framequeue (videostream_w w1))"
      by (simp add: DequeueWhole_empty)
    from first_video_frame [OF i pl(4,5) pos assms(3) refl this] pl(4)
    show ?thesis by simp
  qed
qed


text \<open>The hypotheses of C5 hold of the example run, whose first frame has pts 0.\<close>

theorem C5_first_frame_withheld_witness:
  "\<exists>m0 w1 m.
      MovieDecode_Play (Some []) False example_library = Inr m0
    \<and> \<not> queuesfull (decodeworker m0)
    \<and> ParseVideoFrame ((decodeworker m0)\<lparr>frame := zero_frame\<lparr>frame_pts := 0, pkt_duration := 500\<rparr>\<rparr>)
          = Inr w1
    \<and> PollVideoFrameQueue (m0\<lparr>decodeworker := w1\<rparr>) = Inr m
    \<and> MSToVideoPTS m (position m) = Inr 0
    \<and> MovieDecode_GetImage m = Inr (m, None)
    \<and> size_b (buffer (videostream m)) = 1"
proof -
  let ?f = "zero_frame\<lparr>frame_pts := 0, pkt_duration := 500\<rparr>"
  from example_run_pts obtain m0 w1 m2 where
    r: "example_run = Inr (m0, w1, m2)"
    and q: "\<not> queuesfull (decodeworker m0)"
    and t: "MSToVideoPTS m2 (position m2) = Inr 0"
    by (auto split: sum.splits)
  from r have p: "MovieDecode_Play (Some []) False example_library = Inr m0"
    and v: "ParseVideoFrame ((decodeworker m0)\<lparr>frame := ?f\<rparr>) = Inr w1"
    and d: "PollVideoFrameQueue (m0\<lparr>decodeworker := w1\<rparr>) = Inr m2"
    by (auto simp: example_run_def seq_def split: sum.splits)
  from C5_first_frame_withheld [OF p q v d t] p q v d t show ?thesis by (intro exI [of _ m0] exI [of _ w1] exI [of _ m2]) simp
qed

subsection \<open>Packets of the queue\<close>







































subsection \<open>First sample positions of the audio frames\<close>

































subsection \<open>Copying audio samples\<close>






















end
